theory Spec2Isabelle
  imports Main "HOL-Library.Word"
begin

unbundle bit_operations_syntax

section \<open>Values on the wire\<close>

text \<open>
  The relay of \<^verbatim>\<open>custom-phone-agent.py\<close> moves JSON text frames between the telephony
  socket \<^verbatim>\<open>ws\<close> and the model socket \<^verbatim>\<open>openai_ws\<close>. A frame is modelled by the value
  \<^verbatim>\<open>json.loads\<close> makes of it. Strings are the UTF-8 bytes of the Python \<^verbatim>\<open>str\<close>; a
  \<^verbatim>\<open>dict\<close> is the list of its items in insertion order (\<^verbatim>\<open>json.loads\<close> keeps one item
  per key, and a lookup takes the first item with the key).
\<close>

datatype pyfloat =
    Finite (mantissa: int) (exponent: int) \<comment> \<open>the float \<open>mantissa * 2 ^ exponent\<close>\<close>
  | Infinite bool
  | NaN

datatype json =
    JNull
  | JBool bool
  | JInt int
  | JFloat pyfloat
  | JStr string
  | JArr "json list"
  | JObj "(string \<times> json) list"

text \<open>
  The exceptions that the code can meet: those of Python's own operations, and those that
  a socket (\<^verbatim>\<open>ConnectionClosed\<close>) or an external service (\<^verbatim>\<open>APIError\<close>) raises.
\<close>

datatype exn =
    KeyError
  | TypeError
  | AttributeError
  | IndexError
  | ValueError
  | BinasciiError
  | ConnectionClosed
  | APIError

text \<open>\<^verbatim>\<open>v[k]\<close> with a string key: only a \<^verbatim>\<open>dict\<close> that has the key answers.\<close>

fun py_getitem :: "json \<Rightarrow> string \<Rightarrow> exn + json" where
  "py_getitem (JObj kvs) k = (case map_of kvs k of None \<Rightarrow> Inl KeyError | Some v \<Rightarrow> Inr v)"
| "py_getitem _ k = Inl TypeError"

text \<open>\<^verbatim>\<open>v.get(k)\<close>: \<^verbatim>\<open>None\<close> for a missing key; only a \<^verbatim>\<open>dict\<close> has the method.\<close>

fun py_get :: "json \<Rightarrow> string \<Rightarrow> exn + json" where
  "py_get (JObj kvs) k = Inr (case map_of kvs k of None \<Rightarrow> JNull | Some v \<Rightarrow> v)"
| "py_get _ k = Inl AttributeError"

text \<open>Truth value of a Python object, as \<^verbatim>\<open>if v\<close> and \<^verbatim>\<open>a and b\<close> test it.\<close>

fun truthy :: "json \<Rightarrow> bool" where
  "truthy JNull = False"
| "truthy (JBool b) = b"
| "truthy (JInt i) = (i \<noteq> 0)"
| "truthy (JFloat f) = (case f of Finite m e \<Rightarrow> m \<noteq> 0 | _ \<Rightarrow> True)"
| "truthy (JStr s) = (s \<noteq> [])"
| "truthy (JArr xs) = (xs \<noteq> [])"
| "truthy (JObj kvs) = (kvs \<noteq> [])"

text \<open>
  A value inside an f-string: a \<^verbatim>\<open>str\<close> is inserted as it is, any other value through
  Python's \<^verbatim>\<open>str()\<close>, which is the parameter \<open>repr\<close> of the model.
\<close>

definition format_value :: "(json \<Rightarrow> string) \<Rightarrow> json \<Rightarrow> string" where
  "format_value repr v = (case v of JStr s \<Rightarrow> s | _ \<Rightarrow> repr v)"

text \<open>\<^verbatim>\<open>sep.join(xs)\<close>.\<close>

fun join :: "string \<Rightarrow> string list \<Rightarrow> string" where
  "join sep [] = []"
| "join sep [x] = x"
| "join sep (x # y # ys) = x @ sep @ join sep (y # ys)"

subsection \<open>\<^verbatim>\<open>str.strip()\<close>\<close>

text \<open>
  \<^verbatim>\<open>strip\<close> removes the white space of Unicode at both ends: U+0009 to U+000D, U+001C to
  U+0020, U+0085, U+00A0, U+1680, U+2000 to U+200A, U+2028, U+2029, U+202F, U+205F and
  U+3000. \<open>space_len\<close> is the number of bytes of the white-space character that a list of
  UTF-8 bytes starts with, 0 when it starts with none.
\<close>

fun space_len :: "nat list \<Rightarrow> nat" where
  "space_len [] = 0"
| "space_len (a # bs) =
     (if (9 \<le> a \<and> a \<le> 13) \<or> (28 \<le> a \<and> a \<le> 32) then 1
      else if a = 0xC2 \<and> (take 1 bs = [0x85] \<or> take 1 bs = [0xA0]) then 2
      else if a = 0xE1 \<and> take 2 bs = [0x9A, 0x80] then 3
      else if a = 0xE2 \<and> take 1 bs = [0x80] \<and> length bs \<ge> 2 \<and>
              ((0x80 \<le> bs ! 1 \<and> bs ! 1 \<le> 0x8A) \<or> bs ! 1 = 0xA8 \<or> bs ! 1 = 0xA9 \<or> bs ! 1 = 0xAF)
        then 3
      else if a = 0xE2 \<and> take 2 bs = [0x81, 0x9F] then 3
      else if a = 0xE3 \<and> take 2 bs = [0x80, 0x80] then 3
      else 0)"

text \<open>The same, read from the end: the argument is the reversed byte list.\<close>

fun space_len_rev :: "nat list \<Rightarrow> nat" where
  "space_len_rev [] = 0"
| "space_len_rev (a # bs) =
     (if (9 \<le> a \<and> a \<le> 13) \<or> (28 \<le> a \<and> a \<le> 32) then 1
      else if (a = 0x85 \<or> a = 0xA0) \<and> take 1 bs = [0xC2] then 2
      else if a = 0x80 \<and> take 2 bs = [0x9A, 0xE1] then 3
      else if ((0x80 \<le> a \<and> a \<le> 0x8A) \<or> a = 0xA8 \<or> a = 0xA9 \<or> a = 0xAF) \<and>
              take 2 bs = [0x80, 0xE2] then 3
      else if a = 0x9F \<and> take 2 bs = [0x81, 0xE2] then 3
      else if a = 0x80 \<and> take 2 bs = [0x80, 0xE3] then 3
      else 0)"

function lstrip :: "string \<Rightarrow> string" where
  "lstrip s =
     (let n = space_len (map of_char s) in if n = 0 then s else lstrip (drop n s))"
  by pat_completeness auto

termination
proof (relation "measure length")
  fix s :: string and n :: nat
  assume "n = space_len (map of_char s)" and "n \<noteq> 0"
  then have "s \<noteq> []" by (cases s) auto
  with \<open>n \<noteq> 0\<close> show "(drop n s, s) \<in> measure length" by simp
qed simp

function rstrip_rev :: "string \<Rightarrow> string" where
  "rstrip_rev s =
     (let n = space_len_rev (map of_char s) in if n = 0 then s else rstrip_rev (drop n s))"
  by pat_completeness auto

termination
proof (relation "measure length")
  fix s :: string and n :: nat
  assume "n = space_len_rev (map of_char s)" and "n \<noteq> 0"
  then have "s \<noteq> []" by (cases s) auto
  with \<open>n \<noteq> 0\<close> show "(drop n s, s) \<in> measure length" by simp
qed simp

declare lstrip.simps [simp del] rstrip_rev.simps [simp del]

definition rstrip :: "string \<Rightarrow> string" where
  "rstrip s = rev (rstrip_rev (rev s))"

definition strip :: "string \<Rightarrow> string" where
  "strip s = rstrip (lstrip s)"

section \<open>Base64\<close>

text \<open>
  \<^verbatim>\<open>base64.b64encode\<close> and \<^verbatim>\<open>base64.b64decode\<close> of the Python library, which the pump
  \<^verbatim>\<open>openai_to_twilio\<close> calls on every audio delta. The encoder is that of RFC 4648 with
  padding. The decoder is \<^verbatim>\<open>binascii.a2b_base64\<close> in its default, non-strict mode: a
  character outside the alphabet is skipped, padding ends the input only where a group of
  four is complete with it, and an incomplete last group is an error.
\<close>

type_synonym byte = "8 word"

definition table_b2a_base64 :: string where
  "table_b2a_base64 = ''ABCDEFGHIJKLMNOPQRSTUVWXYZabcdefghijklmnopqrstuvwxyz0123456789+/''"

definition b2a :: "byte \<Rightarrow> char" where
  "b2a v = table_b2a_base64 ! unat v"

definition table_a2b_base64 :: "char \<Rightarrow> byte option" where
  "table_a2b_base64 c =
     (let n = (of_char c :: nat) in
      if 65 \<le> n \<and> n \<le> 90 then Some (of_nat (n - 65))
      else if 97 \<le> n \<and> n \<le> 122 then Some (of_nat (n - 71))
      else if 48 \<le> n \<and> n \<le> 57 then Some (of_nat (n + 4))
      else if n = 43 then Some 62
      else if n = 47 then Some 63
      else None)"

fun b2a_base64 :: "byte list \<Rightarrow> string" where
  "b2a_base64 [] = []"
| "b2a_base64 [a] =
     [b2a (drop_bit 2 a), b2a (push_bit 4 (a AND 3)), CHR ''='', CHR ''='']"
| "b2a_base64 [a, b] =
     [b2a (drop_bit 2 a), b2a (push_bit 4 (a AND 3) OR drop_bit 4 b),
      b2a (push_bit 2 (b AND 15)), CHR ''='']"
| "b2a_base64 (a # b # c # rest) =
     [b2a (drop_bit 2 a), b2a (push_bit 4 (a AND 3) OR drop_bit 4 b),
      b2a (push_bit 2 (b AND 15) OR drop_bit 6 c), b2a (c AND 63)] @ b2a_base64 rest"

text \<open>
  The decoder's loop with its variables: the position in the current group of four, the
  bits left over from the last character, the padding characters seen in a row, and the
  bytes written so far.
\<close>

fun a2b_loop :: "nat \<Rightarrow> byte \<Rightarrow> nat \<Rightarrow> byte list \<Rightarrow> string \<Rightarrow> exn + byte list" where
  "a2b_loop quad_pos leftchar pads out [] =
     (if quad_pos \<noteq> 0 then Inl BinasciiError else Inr out)"
| "a2b_loop quad_pos leftchar pads out (c # cs) =
     (if c = CHR ''='' then
        (if 2 \<le> quad_pos \<and> 4 \<le> quad_pos + (pads + 1) then Inr out
         else a2b_loop quad_pos leftchar (if 2 \<le> quad_pos then pads + 1 else pads) out cs)
      else case table_a2b_base64 c of
        None \<Rightarrow> a2b_loop quad_pos leftchar pads out cs
      | Some v \<Rightarrow>
          (if quad_pos = 0 then a2b_loop 1 v 0 out cs
           else if quad_pos = 1 then
             a2b_loop 2 (v AND 15) 0 (out @ [push_bit 2 leftchar OR drop_bit 4 v]) cs
           else if quad_pos = 2 then
             a2b_loop 3 (v AND 3) 0 (out @ [push_bit 4 leftchar OR drop_bit 2 v]) cs
           else a2b_loop 0 0 0 (out @ [push_bit 6 leftchar OR v]) cs))"

text \<open>
  \<^verbatim>\<open>b64decode(s)\<close> of a decoded JSON value: a \<^verbatim>\<open>str\<close> must be ASCII (\<^verbatim>\<open>ValueError\<close>
  otherwise), and no other JSON value is bytes-like (\<^verbatim>\<open>TypeError\<close>).
\<close>

fun b64decode :: "json \<Rightarrow> exn + byte list" where
  "b64decode (JStr s) =
     (if \<exists>c \<in> set s. 128 \<le> (of_char c :: nat) then Inl ValueError
      else a2b_loop 0 0 0 [] s)"
| "b64decode _ = Inl TypeError"

definition b64encode :: "byte list \<Rightarrow> string" where
  "b64encode chunk = b2a_base64 chunk"

section \<open>The session registry\<close>

text \<open>
  \<^verbatim>\<open>STREAMS_SETTINGS\<close> is a module-level \<^verbatim>\<open>dict\<close> from session ids to the three settings
  that \<^verbatim>\<open>call_custom\<close> stores. A function that can reach it takes it and hands it back.
  An entry always has its three keys, so \<^verbatim>\<open>if not settings\<close> is the test for a missing
  entry.
\<close>

record settings =
  system_message :: string
  voice :: string
  email :: string

type_synonym registry = "string \<rightharpoonup> settings"

record CallCustomRequest =
  req_phone_number :: string
  req_email :: string
  req_system_message :: string
  req_voice :: string

text \<open>
  \<^verbatim>\<open>call_custom\<close> (lines 52 to 62); \<open>session_id\<close> is the value of \<^verbatim>\<open>uuid.uuid4().hex\<close>.
  The telephone call itself is placed later by a background task, which is not part of
  the relay.
\<close>

definition call_custom :: "string \<Rightarrow> CallCustomRequest \<Rightarrow> registry \<Rightarrow> registry \<times> string" where
  "call_custom session_id req STREAMS_SETTINGS =
     (STREAMS_SETTINGS(session_id \<mapsto>
        \<lparr>system_message = req_system_message req, voice = req_voice req, email = req_email req\<rparr>),
      session_id)"

text \<open>The registry after a sequence of call requests, each with the id drawn for it.\<close>

fun registered :: "(string \<times> CallCustomRequest) list \<Rightarrow> registry \<Rightarrow> registry" where
  "registered [] STREAMS_SETTINGS = STREAMS_SETTINGS"
| "registered ((session_id, req) # calls) STREAMS_SETTINGS =
     registered calls (fst (call_custom session_id req STREAMS_SETTINGS))"

section \<open>What the relay does, as a trace\<close>

text \<open>
  The calls that \<^verbatim>\<open>media_stream\<close> and its pumps make on the two sockets, on the tasks,
  on the two post-processing functions and on the two external services, in the order in
  which they make them. A call is in the trace whether it returns or raises. Logging is
  left out.
\<close>

datatype pump = T1 \<comment> \<open>\<^verbatim>\<open>twilio_to_openai\<close>\<close> | T2 \<comment> \<open>\<^verbatim>\<open>openai_to_twilio\<close>\<close>

record mail =
  from_email :: string
  to_emails :: string
  template_id :: string
  dynamic_template_data :: string

datatype action =
    WsClose \<comment> \<open>\<^verbatim>\<open>await ws.close()\<close>\<close>
  | WsAccept \<comment> \<open>\<^verbatim>\<open>await ws.accept()\<close>\<close>
  | ModelConnect \<comment> \<open>\<^verbatim>\<open>await websockets.connect(...)\<close>\<close>
  | ModelSend json \<comment> \<open>\<^verbatim>\<open>await openai_ws.send(json.dumps(v))\<close>\<close>
  | WsSendJson json \<comment> \<open>\<^verbatim>\<open>await ws.send_json(v)\<close>\<close>
  | TaskCreated pump \<comment> \<open>\<^verbatim>\<open>asyncio.create_task\<close>\<close>
  | TaskDone pump \<comment> \<open>the pump's coroutine has returned\<close>
  | TaskCancel pump \<comment> \<open>\<^verbatim>\<open>task.cancel()\<close>\<close>
  | ModelClose \<comment> \<open>\<^verbatim>\<open>await openai_ws.close()\<close>\<close>
  | Summarize string \<comment> \<open>\<^verbatim>\<open>await summarize_conversation(full_text)\<close>\<close>
  | LLMRequest json \<comment> \<open>\<^verbatim>\<open>openai.chat.completions.create(...)\<close>\<close>
  | Notify string string \<comment> \<open>\<^verbatim>\<open>await send_summary_email(email, summary)\<close>\<close>
  | MailSend mail \<comment> \<open>\<^verbatim>\<open>sg.send(message)\<close>\<close>

section \<open>The two pumps\<close>

text \<open>
  What a pump receives when the event loop resumes it: a text frame, given by what
  \<^verbatim>\<open>json.loads\<close> makes of it (\<open>None\<close> when it raises) and by the exception, if any, of
  the send that the frame leads to; or the end of its socket's iterator.
\<close>

datatype delivery =
    Text "json option" "exn option"
  | Disconnect

datatype event = ToTwilioPump delivery | ToModelPump delivery

text \<open>
  The variables of \<^verbatim>\<open>media_stream\<close> that its two closures share (lines 124 and 125), and
  whether each task is done.
\<close>

record call_session =
  stream_sid :: json
  transcript :: "string list"
  t1_done :: bool
  t2_done :: bool

text \<open>The two messages that carry audio: lines 137 to 140, and lines 162 to 166.\<close>

definition audio_append :: "json \<Rightarrow> json" where
  "audio_append payload =
     JObj [(''type'', JStr ''input_audio_buffer.append''), (''audio'', payload)]"

definition media_out :: "json \<Rightarrow> string \<Rightarrow> json" where
  "media_out sid payload =
     JObj [(''event'', JStr ''media''), (''streamSid'', sid),
           (''media'', JObj [(''payload'', JStr payload)])]"

definition t1_stop :: "call_session \<Rightarrow> action list \<Rightarrow> call_session \<times> action list" where
  "t1_stop s acts = (s\<lparr>t1_done := True\<rparr>, acts @ [TaskDone T1])"

definition t2_stop :: "call_session \<Rightarrow> action list \<Rightarrow> call_session \<times> action list" where
  "t2_stop s acts = (s\<lparr>t2_done := True\<rparr>, acts @ [TaskDone T2])"

text \<open>
  One resumption of \<^verbatim>\<open>twilio_to_openai\<close> (lines 127 to 142): the body of its loop on one
  frame. Every exception ends the loop in the \<^verbatim>\<open>except Exception\<close> of line 141, and so
  does the end of \<^verbatim>\<open>ws.iter_text()\<close>.
\<close>

definition twilio_to_openai :: "call_session \<Rightarrow> delivery \<Rightarrow> call_session \<times> action list" where
  "twilio_to_openai s d =
     (case d of
        Disconnect \<Rightarrow> t1_stop s []
      | Text raw fault \<Rightarrow>
          (case raw of
             None \<Rightarrow> t1_stop s []
           | Some data \<Rightarrow>
               (case py_getitem data ''event'' of
                  Inl e \<Rightarrow> t1_stop s []
                | Inr ev \<Rightarrow>
                    if ev = JStr ''start'' then
                      (case py_getitem data ''start'' of
                         Inl e \<Rightarrow> t1_stop s []
                       | Inr start \<Rightarrow>
                           (case py_getitem start ''streamSid'' of
                              Inl e \<Rightarrow> t1_stop s []
                            | Inr sid \<Rightarrow> (s\<lparr>stream_sid := sid\<rparr>, [])))
                    else if ev = JStr ''media'' then
                      (case py_getitem data ''media'' of
                         Inl e \<Rightarrow> t1_stop s []
                       | Inr media \<Rightarrow>
                           (case py_getitem media ''payload'' of
                              Inl e \<Rightarrow> t1_stop s []
                            | Inr payload \<Rightarrow>
                                (case fault of
                                   None \<Rightarrow> (s, [ModelSend (audio_append payload)])
                                 | Some e \<Rightarrow> t1_stop s [ModelSend (audio_append payload)])))
                    else (s, []))))"

text \<open>
  Lines 153 and 157: \<^verbatim>\<open>transcript.append(f"<speaker>: {evt['transcript']}")\<close>.
\<close>

definition capture ::
  "(json \<Rightarrow> string) \<Rightarrow> string \<Rightarrow> json \<Rightarrow> call_session \<Rightarrow> exn + call_session" where
  "capture repr speaker evt s =
     (case py_getitem evt ''transcript'' of
        Inl e \<Rightarrow> Inl e
      | Inr t \<Rightarrow> Inr (s\<lparr>transcript := transcript s @ [speaker @ '': '' @ format_value repr t]\<rparr>))"

text \<open>Lines 160 to 166: decode the delta, encode it again, send the media frame.\<close>

definition forward_audio ::
  "call_session \<Rightarrow> json \<Rightarrow> exn option \<Rightarrow> call_session \<times> action list" where
  "forward_audio s evt fault =
     (case py_getitem evt ''delta'' of
        Inl e \<Rightarrow> t2_stop s []
      | Inr delta \<Rightarrow>
          (case b64decode delta of
             Inl e \<Rightarrow> t2_stop s []
           | Inr chunk \<Rightarrow>
               (let payload = b64encode chunk
                in case fault of
                     None \<Rightarrow> (s, [WsSendJson (media_out (stream_sid s) payload)])
                   | Some e \<Rightarrow> t2_stop s [WsSendJson (media_out (stream_sid s) payload)])))"

text \<open>
  One resumption of \<^verbatim>\<open>openai_to_twilio\<close> (lines 144 to 168). Its three \<^verbatim>\<open>if\<close>s run one
  after the other; what an earlier one appended stays when a later one raises. Every
  exception ends the loop in the \<^verbatim>\<open>except Exception\<close> of line 167. Where
  \<^verbatim>\<open>evt.get("type")\<close> has answered, \<^verbatim>\<open>evt\<close> is a \<^verbatim>\<open>dict\<close> and \<^verbatim>\<open>evt.get("delta")\<close>
  answers too.
\<close>

definition openai_to_twilio ::
  "(json \<Rightarrow> string) \<Rightarrow> call_session \<Rightarrow> delivery \<Rightarrow> call_session \<times> action list" where
  "openai_to_twilio repr s d =
     (case d of
        Disconnect \<Rightarrow> t2_stop s []
      | Text raw fault \<Rightarrow>
          (case raw of
             None \<Rightarrow> t2_stop s []
           | Some evt \<Rightarrow>
               (case py_get evt ''type'' of
                  Inl e \<Rightarrow> t2_stop s []
                | Inr ty \<Rightarrow>
                    (case (if ty = JStr ''conversation.item.input_audio_transcription.completed''
                           then capture repr ''user'' evt s else Inr s) of
                       Inl e \<Rightarrow> t2_stop s []
                     | Inr s1 \<Rightarrow>
                         (case (if ty = JStr ''response.audio_transcript.done''
                                then capture repr ''assistant'' evt s1 else Inr s1) of
                            Inl e \<Rightarrow> t2_stop s1 []
                          | Inr s2 \<Rightarrow>
                              if ty = JStr ''response.audio.delta'' \<and>
                                 (case py_get evt ''delta'' of Inl e \<Rightarrow> False | Inr delta \<Rightarrow> truthy delta)
                              then forward_audio s2 evt fault
                              else (s2, []))))))"

text \<open>
  The event loop resumes one pump at a time; a task that is done is not resumed again.
\<close>

definition pump_step ::
  "(json \<Rightarrow> string) \<Rightarrow> call_session \<Rightarrow> event \<Rightarrow> call_session \<times> action list" where
  "pump_step repr s ev =
     (case ev of
        ToTwilioPump d \<Rightarrow> if t1_done s then (s, []) else twilio_to_openai s d
      | ToModelPump d \<Rightarrow> if t2_done s then (s, []) else openai_to_twilio repr s d)"

fun run_pumps ::
  "(json \<Rightarrow> string) \<Rightarrow> call_session \<Rightarrow> event list \<Rightarrow> call_session \<times> action list" where
  "run_pumps repr s [] = (s, [])"
| "run_pumps repr s (ev # evs) =
     (let (s1, acts1) = pump_step repr s ev;
          (s2, acts2) = run_pumps repr s1 evs
      in (s2, acts1 @ acts2))"

section \<open>Summary and notification\<close>

text \<open>
  The environment variables that \<^verbatim>\<open>send_summary_email\<close> reads (lines 27 to 29);
  \<^verbatim>\<open>os.getenv\<close> gives \<^verbatim>\<open>None\<close> for a variable that is not set.
\<close>

record config =
  SENDGRID_API_KEY :: "string option"
  EMAIL_FROM :: "string option"
  SUMMARY_TEMPLATE_ID :: "string option"

text \<open>
  \<^verbatim>\<open>summarize_conversation\<close> (lines 230 to 254). \<open>create\<close> is the call
  \<^verbatim>\<open>openai.chat.completions.create\<close>: it raises, or answers with the \<^verbatim>\<open>message.content\<close>
  of each choice. The function lets every exception of its \<^verbatim>\<open>try\<close> block through.
\<close>

definition summarize_conversation ::
  "(json \<Rightarrow> exn + string option list) \<Rightarrow> string \<Rightarrow> (exn + string) \<times> action list" where
  "summarize_conversation create conv =
     (if strip conv = [] then (Inr ''No conversation content to summarize.'', [])
      else
        (let request = JObj
               [(''model'', JStr ''gpt-4o-mini''),
                (''messages'', JArr
                   [JObj [(''role'', JStr ''system''),
                          (''content'', JStr ''You are a concise summarizer.'')],
                    JObj [(''role'', JStr ''user''),
                          (''content'', JStr
                             (''Summarize this call transcript in the language of the call:''
                              @ [CHR 0x0A, CHR 0x0A] @ conv))]])]
         in ((case create request of
                Inl e \<Rightarrow> Inl e
              | Inr choices \<Rightarrow>
                  (case choices of
                     [] \<Rightarrow> Inl IndexError
                   | content # _ \<Rightarrow>
                       (case content of
                          None \<Rightarrow> Inl AttributeError
                        | Some text \<Rightarrow> Inr (strip text)))),
             [LLMRequest request])))"

text \<open>
  \<^verbatim>\<open>send_summary_email\<close> (lines 256 to 272). \<open>send\<close> is \<^verbatim>\<open>SendGridAPIClient(key).send\<close>:
  it raises, or answers with a status code. \<^verbatim>\<open>not v\<close> holds of \<^verbatim>\<open>None\<close> and of the
  empty string.
\<close>

definition send_summary_email ::
  "config \<Rightarrow> (string \<Rightarrow> mail \<Rightarrow> exn + nat) \<Rightarrow> string \<Rightarrow> string \<Rightarrow> (exn + unit) \<times> action list" where
  "send_summary_email cfg send to_email summary =
     (case (SENDGRID_API_KEY cfg, EMAIL_FROM cfg, SUMMARY_TEMPLATE_ID cfg) of
        (Some key, Some sender, Some template) \<Rightarrow>
          if key = [] \<or> sender = [] \<or> template = [] then (Inr (), [])
          else
            (let message = \<lparr>from_email = sender, to_emails = to_email,
                            template_id = template, dynamic_template_data = summary\<rparr>
             in (case send key message of
                   Inl e \<Rightarrow> (Inr (), [MailSend message])
                 | Inr status_code \<Rightarrow> (Inr (), [MailSend message])))
      | _ \<Rightarrow> (Inr (), []))"

section \<open>The relay\<close>

text \<open>
  What the world outside does during one call of \<^verbatim>\<open>media_stream\<close>: which of its socket
  calls raise, in which order the event loop resumes the pumps and with what, and what
  the two external services answer. The exception of \<^verbatim>\<open>openai_ws.close()\<close> in line 203
  is caught and dropped on the spot, so it needs no place here.
\<close>

datatype site =
    RefuseClose \<comment> \<open>\<^verbatim>\<open>ws.close()\<close>, line 102\<close>
  | Accept \<comment> \<open>\<^verbatim>\<open>ws.accept()\<close>, line 105\<close>
  | Connect \<comment> \<open>\<^verbatim>\<open>websockets.connect\<close>, line 110\<close>
  | HandshakeClose \<comment> \<open>\<^verbatim>\<open>ws.close()\<close>, line 121\<close>
  | InitSend nat \<comment> \<open>\<^verbatim>\<open>openai_ws.send\<close>, lines 172, 183 and 191\<close>

record env =
  raises :: "site \<Rightarrow> exn option"
  schedule :: "event list"
  chat_completions_create :: "json \<Rightarrow> exn + string option list"
  sg_send :: "string \<Rightarrow> mail \<Rightarrow> exn + nat"

datatype outcome =
    Returned
  | Raised exn
  | Waiting \<comment> \<open>\<^verbatim>\<open>asyncio.wait\<close> has not returned: neither pump is done\<close>

definition session_update :: "settings \<Rightarrow> json" where
  "session_update settings = JObj
     [(''type'', JStr ''session.update''),
      (''session'', JObj
         [(''voice'', JStr (voice settings)),
          (''instructions'', JStr (system_message settings)),
          (''turn_detection'', JObj [(''type'', JStr ''server_vad'')]),
          (''input_audio_format'', JStr ''g711_ulaw''),
          (''output_audio_format'', JStr ''g711_ulaw''),
          (''input_audio_transcription'', JObj [(''model'', JStr ''whisper-1'')])])]"

definition greeting_item :: json where
  "greeting_item = JObj
     [(''type'', JStr ''conversation.item.create''),
      (''item'', JObj
         [(''type'', JStr ''message''),
          (''role'', JStr ''user''),
          (''content'', JArr
             [JObj [(''type'', JStr ''input_text''),
                    (''text'', JStr ''Please begin by greeting the user.'')]])])]"

definition response_create :: json where
  "response_create = JObj [(''type'', JStr ''response.create'')]"

text \<open>
  Lines 172 to 191: three sends, none of them guarded; the first that raises ends
  \<^verbatim>\<open>media_stream\<close> with its exception.
\<close>

definition initialise :: "(site \<Rightarrow> exn option) \<Rightarrow> settings \<Rightarrow> exn option \<times> action list" where
  "initialise raising settings =
     (case raising (InitSend 0) of
        Some e \<Rightarrow> (Some e, [ModelSend (session_update settings)])
      | None \<Rightarrow>
          (case raising (InitSend 1) of
             Some e \<Rightarrow> (Some e, [ModelSend (session_update settings), ModelSend greeting_item])
           | None \<Rightarrow>
               (raising (InitSend 2),
                [ModelSend (session_update settings), ModelSend greeting_item,
                 ModelSend response_create])))"

text \<open>Lines 124, 125, 194 and 195: the shared variables and the two tasks at their start.\<close>

definition initial_session :: call_session where
  "initial_session = \<lparr>stream_sid = JNull, transcript = [], t1_done = False, t2_done = False\<rparr>"

text \<open>Lines 197 and 198: \<^verbatim>\<open>task.cancel()\<close> for each task that is not done.\<close>

definition cancel_pending :: "call_session \<Rightarrow> action list" where
  "cancel_pending s =
     (if t1_done s then [] else [TaskCancel T1]) @ (if t2_done s then [] else [TaskCancel T2])"

text \<open>
  Lines 201 to 224: close the model socket, whatever that raises; summarise, with the
  fixed text for any exception; send the mail, whatever that raises; return.
\<close>

definition post_call :: "config \<Rightarrow> env \<Rightarrow> settings \<Rightarrow> string list \<Rightarrow> action list" where
  "post_call cfg world settings lines =
     (let full_text = join [CHR 0x0A] lines;
          (result, llm_acts) = summarize_conversation (chat_completions_create world) full_text;
          summary = (case result of
                       Inl e \<Rightarrow> ''Sorry, I couldn't generate a summary.''
                     | Inr text \<Rightarrow> text);
          (sent, mail_acts) = send_summary_email cfg (sg_send world) (email settings) summary
      in [ModelClose, Summarize full_text] @ llm_acts @
         [Notify (email settings) summary] @ mail_acts)"

text \<open>
  \<^verbatim>\<open>media_stream\<close> (lines 96 to 224). It reads \<^verbatim>\<open>STREAMS_SETTINGS\<close> with \<^verbatim>\<open>get\<close> and never
  writes it. The pumps run while \<^verbatim>\<open>media_stream\<close> waits in \<^verbatim>\<open>asyncio.wait\<close>; the schedule
  is what the event loop hands them until \<^verbatim>\<open>media_stream\<close> runs again, which may be some
  resumptions of the other pump after the first pump is done. A schedule on which neither
  pump ends leaves \<^verbatim>\<open>media_stream\<close> waiting. A task on which \<^verbatim>\<open>cancel\<close> was called
  handles no further frame.
\<close>

definition media_stream ::
  "(json \<Rightarrow> string) \<Rightarrow> config \<Rightarrow> registry \<Rightarrow> string \<Rightarrow> env \<Rightarrow> registry \<times> outcome \<times> action list" where
  "media_stream repr cfg STREAMS_SETTINGS session_id world =
     (STREAMS_SETTINGS,
      case STREAMS_SETTINGS session_id of
        None \<Rightarrow>
          (case raises world RefuseClose of
             Some e \<Rightarrow> (Raised e, [WsClose])
           | None \<Rightarrow> (Returned, [WsClose]))
      | Some settings \<Rightarrow>
          (case raises world Accept of
             Some e \<Rightarrow> (Raised e, [WsAccept])
           | None \<Rightarrow>
               (case raises world Connect of
                  Some e \<Rightarrow>
                    (case raises world HandshakeClose of
                       Some e' \<Rightarrow> (Raised e', [WsAccept, ModelConnect, WsClose])
                     | None \<Rightarrow> (Returned, [WsAccept, ModelConnect, WsClose]))
                | None \<Rightarrow>
                    (case initialise (raises world) settings of
                       (Some e, init_acts) \<Rightarrow> (Raised e, [WsAccept, ModelConnect] @ init_acts)
                     | (None, init_acts) \<Rightarrow>
                         (let (s, pump_acts) = run_pumps repr initial_session (schedule world);
                              started = [WsAccept, ModelConnect] @ init_acts @
                                        [TaskCreated T1, TaskCreated T2] @ pump_acts
                          in if \<not> t1_done s \<and> \<not> t2_done s then (Waiting, started)
                             else (Returned,
                                   started @ cancel_pending s @
                                   post_call cfg world settings (transcript s)))))))"

section \<open>Notions of the specification\<close>

text \<open>The required configuration of the notification is present.\<close>

definition configured :: "config \<Rightarrow> bool" where
  "configured cfg =
     (case (SENDGRID_API_KEY cfg, EMAIL_FROM cfg, SUMMARY_TEMPLATE_ID cfg) of
        (Some key, Some sender, Some template) \<Rightarrow> key \<noteq> [] \<and> sender \<noteq> [] \<and> template \<noteq> []
      | _ \<Rightarrow> False)"

fun is_summarize :: "action \<Rightarrow> bool" where
  "is_summarize (Summarize conv) = True"
| "is_summarize _ = False"

fun is_notify :: "action \<Rightarrow> bool" where
  "is_notify (Notify to_email summary) = True"
| "is_notify _ = False"

text \<open>What a pump can add to the trace.\<close>

fun pump_action :: "action \<Rightarrow> bool" where
  "pump_action (ModelSend msg) = True"
| "pump_action (WsSendJson frame) = True"
| "pump_action (TaskDone p) = True"
| "pump_action a = False"

fun is_llm_request :: "action \<Rightarrow> bool" where
  "is_llm_request (LLMRequest request) = True"
| "is_llm_request _ = False"

text \<open>
  The part of a trace before the relay starts to drain, that is, before it closes the
  model socket in line 203. A pump has stopped there when its coroutine has returned; it
  has only been asked to stop when \<^verbatim>\<open>cancel\<close> was called on its task.
\<close>

definition before_drain :: "action list \<Rightarrow> action list" where
  "before_drain trace = takeWhile (\<lambda>a. a \<noteq> ModelClose) trace"

definition stopped_before_drain :: "pump \<Rightarrow> action list \<Rightarrow> bool" where
  "stopped_before_drain p trace = (TaskDone p \<in> set (before_drain trace))"

definition cancelled_before_drain :: "pump \<Rightarrow> action list \<Rightarrow> bool" where
  "cancelled_before_drain p trace = (TaskCancel p \<in> set (before_drain trace))"

text \<open>The relay gets as far as its pumps: no call before them raises.\<close>

definition streams :: "env \<Rightarrow> bool" where
  "streams world =
     (raises world Accept = None \<and> raises world Connect = None \<and>
      raises world (InitSend 0) = None \<and> raises world (InitSend 1) = None \<and>
      raises world (InitSend 2) = None)"

text \<open>The session after the pumps have run on the schedule, and whether one is done.\<close>

definition streamed :: "(json \<Rightarrow> string) \<Rightarrow> env \<Rightarrow> call_session" where
  "streamed repr world = fst (run_pumps repr initial_session (schedule world))"

definition a_pump_done :: "(json \<Rightarrow> string) \<Rightarrow> env \<Rightarrow> bool" where
  "a_pump_done repr world = (t1_done (streamed repr world) \<or> t2_done (streamed repr world))"

text \<open>
  The completion events of the model socket: the speaker and the value under
  \<^verbatim>\<open>transcript\<close>, and the line that stands for them in the transcript.
\<close>

datatype speaker = User | Assistant

fun speaker_name :: "speaker \<Rightarrow> string" where
  "speaker_name User = ''user''"
| "speaker_name Assistant = ''assistant''"

definition completion :: "json \<Rightarrow> (speaker \<times> json) option" where
  "completion evt =
     (case py_get evt ''type'' of
        Inl e \<Rightarrow> None
      | Inr ty \<Rightarrow>
          (case py_getitem evt ''transcript'' of
             Inl e \<Rightarrow> None
           | Inr t \<Rightarrow>
               if ty = JStr ''conversation.item.input_audio_transcription.completed''
               then Some (User, t)
               else if ty = JStr ''response.audio_transcript.done'' then Some (Assistant, t)
               else None))"

fun completions :: "event list \<Rightarrow> (speaker \<times> json) list" where
  "completions [] = []"
| "completions (ToModelPump (Text (Some evt) fault) # evs) =
     (case completion evt of None \<Rightarrow> completions evs | Some c \<Rightarrow> c # completions evs)"
| "completions (ev # evs) = completions evs"

definition render :: "(json \<Rightarrow> string) \<Rightarrow> speaker \<times> json \<Rightarrow> string" where
  "render repr c = speaker_name (fst c) @ '': '' @ format_value repr (snd c)"

text \<open>The audio payloads of the inbound \<^verbatim>\<open>media\<close> events of a schedule, in their order.\<close>

definition media_payload :: "json \<Rightarrow> json option" where
  "media_payload data =
     (case py_getitem data ''event'' of
        Inl e \<Rightarrow> None
      | Inr ev \<Rightarrow>
          if ev = JStr ''media'' then
            (case py_getitem data ''media'' of
               Inl e \<Rightarrow> None
             | Inr media \<Rightarrow>
                 (case py_getitem media ''payload'' of Inl e \<Rightarrow> None | Inr payload \<Rightarrow> Some payload))
          else None)"

fun inbound_payloads :: "event list \<Rightarrow> json list" where
  "inbound_payloads [] = []"
| "inbound_payloads (ToTwilioPump (Text (Some data) fault) # evs) =
     (case media_payload data of
        None \<Rightarrow> inbound_payloads evs
      | Some payload \<Rightarrow> payload # inbound_payloads evs)"
| "inbound_payloads (ev # evs) = inbound_payloads evs"

text \<open>The payloads that a trace appends to the model's audio buffer.\<close>

fun model_audio :: "action list \<Rightarrow> json list" where
  "model_audio [] = []"
| "model_audio (ModelSend msg # acts) =
     (if py_getitem msg ''type'' = Inr (JStr ''input_audio_buffer.append'') then
        (case py_getitem msg ''audio'' of
           Inl e \<Rightarrow> model_audio acts
         | Inr payload \<Rightarrow> payload # model_audio acts)
      else model_audio acts)"
| "model_audio (a # acts) = model_audio acts"

text \<open>
  The decoded audio of the \<^verbatim>\<open>response.audio.delta\<close> events of a schedule whose delta is
  not empty and decodes, in their order.
\<close>

definition delta_chunk :: "json \<Rightarrow> byte list option" where
  "delta_chunk evt =
     (case py_get evt ''type'' of
        Inl e \<Rightarrow> None
      | Inr ty \<Rightarrow>
          if ty = JStr ''response.audio.delta'' then
            (case py_getitem evt ''delta'' of
               Inl e \<Rightarrow> None
             | Inr delta \<Rightarrow>
                 if truthy delta then
                   (case b64decode delta of Inl e \<Rightarrow> None | Inr chunk \<Rightarrow> Some chunk)
                 else None)
          else None)"

fun delta_chunks :: "event list \<Rightarrow> byte list list" where
  "delta_chunks [] = []"
| "delta_chunks (ToModelPump (Text (Some evt) fault) # evs) =
     (case delta_chunk evt of
        None \<Rightarrow> delta_chunks evs
      | Some chunk \<Rightarrow> chunk # delta_chunks evs)"
| "delta_chunks (ev # evs) = delta_chunks evs"

text \<open>The payloads of the media frames that a trace sends to the telephony socket.\<close>

fun outbound_payloads :: "action list \<Rightarrow> json list" where
  "outbound_payloads [] = []"
| "outbound_payloads (WsSendJson frame # acts) =
     (case py_getitem frame ''media'' of
        Inl e \<Rightarrow> outbound_payloads acts
      | Inr media \<Rightarrow>
          (case py_getitem media ''payload'' of
             Inl e \<Rightarrow> outbound_payloads acts
           | Inr payload \<Rightarrow> payload # outbound_payloads acts))"
| "outbound_payloads (a # acts) = outbound_payloads acts"

text \<open>A telephony \<^verbatim>\<open>start\<close> event.\<close>

fun start_event :: "event \<Rightarrow> bool" where
  "start_event (ToTwilioPump (Text (Some data) fault)) =
     (py_getitem data ''event'' = Inr (JStr ''start''))"
| "start_event ev = False"

section \<open>A call to try things on\<close>

text \<open>
  The scenario of the specification: session \<^verbatim>\<open>abc123\<close> with voice \<^verbatim>\<open>alloy\<close>,
  instructions \<^verbatim>\<open>Be friendly\<close> and the mail address \<^verbatim>\<open>a@example.com\<close>.
\<close>

definition example_request :: CallCustomRequest where
  "example_request =
     \<lparr>req_phone_number = ''+15550100'', req_email = ''a@example.com'',
      req_system_message = ''Be friendly'', req_voice = ''alloy''\<rparr>"

definition example_settings :: settings where
  "example_settings =
     \<lparr>system_message = ''Be friendly'', voice = ''alloy'', email = ''a@example.com''\<rparr>"

definition example_registry :: registry where
  "example_registry = registered [(''abc123'', example_request)] Map.empty"

definition example_config :: config where
  "example_config =
     \<lparr>SENDGRID_API_KEY = Some ''SG.key'', EMAIL_FROM = Some ''agent@example.com'',
      SUMMARY_TEMPLATE_ID = Some ''d-1''\<rparr>"

definition no_config :: config where
  "no_config = \<lparr>SENDGRID_API_KEY = None, EMAIL_FROM = None, SUMMARY_TEMPLATE_ID = None\<rparr>"

definition example_repr :: "json \<Rightarrow> string" where
  "example_repr v = ''None''"

definition no_fault :: "site \<Rightarrow> exn option" where
  "no_fault place = None"

definition llm_answers :: "json \<Rightarrow> exn + string option list" where
  "llm_answers request = Inr [Some ''A short call.'']"

definition llm_fails :: "json \<Rightarrow> exn + string option list" where
  "llm_fails request = Inl APIError"

definition mail_accepted :: "string \<Rightarrow> mail \<Rightarrow> exn + nat" where
  "mail_accepted key message = Inr 202"

definition mail_fails :: "string \<Rightarrow> mail \<Rightarrow> exn + nat" where
  "mail_fails key message = Inl APIError"

definition example_world :: "event list \<Rightarrow> env" where
  "example_world evs =
     \<lparr>raises = no_fault, schedule = evs,
      chat_completions_create = llm_answers, sg_send = mail_accepted\<rparr>"

definition failing_world :: "event list \<Rightarrow> env" where
  "failing_world evs =
     \<lparr>raises = no_fault, schedule = evs,
      chat_completions_create = llm_fails, sg_send = mail_accepted\<rparr>"

definition start_frame :: json where
  "start_frame = JObj [(''event'', JStr ''start''), (''start'', JObj [(''streamSid'', JStr ''MZ1'')])]"

definition media_frame :: "string \<Rightarrow> json" where
  "media_frame payload =
     JObj [(''event'', JStr ''media''), (''media'', JObj [(''payload'', JStr payload)])]"

definition delta_frame :: "string \<Rightarrow> json" where
  "delta_frame delta = JObj [(''type'', JStr ''response.audio.delta''), (''delta'', JStr delta)]"

definition user_said :: "string \<Rightarrow> json" where
  "user_said text =
     JObj [(''type'', JStr ''conversation.item.input_audio_transcription.completed''),
           (''transcript'', JStr text)]"

definition assistant_said :: "string \<Rightarrow> json" where
  "assistant_said text =
     JObj [(''type'', JStr ''response.audio_transcript.done''), (''transcript'', JStr text)]"

section \<open>Encoding and decoding are inverse\<close>

text \<open>The alphabet, by the codes of its characters.\<close>

lemma table_b2a_codes:
  "map of_char table_b2a_base64 = [65..<91] @ [97..<123] @ [48..<58] @ [43, 47 :: nat]"
  by (simp add: table_b2a_base64_def)

lemma length_table_b2a: "length table_b2a_base64 = 64"
  by (simp add: table_b2a_base64_def)

lemma b2a_code:
  assumes "n < 64"
  shows "of_char (table_b2a_base64 ! n) =
     (if n < 26 then 65 + n else if n < 52 then 71 + n else if n < 62 then n - 4
      else if n = 62 then 43 else (47::nat))"
proof -
  have "of_char (table_b2a_base64 ! n) = map of_char table_b2a_base64 ! n"
    using assms by (simp add: length_table_b2a)
  also have "\<dots> = ([65..<91] @ [97..<123] @ [48..<58] @ [43, 47 :: nat]) ! n"
    by (simp only: table_b2a_codes)
  also have "\<dots> = (if n < 26 then 65 + n else if n < 52 then 71 + n else if n < 62 then n - 4
      else if n = 62 then 43 else (47::nat))"
  proof -
    consider "n < 26" | "26 \<le> n" "n < 52" | "52 \<le> n" "n < 62" | "n = 62" | "n = 63"
      using assms by linarith
    then show ?thesis
    proof cases
      case 1
      then show ?thesis by (simp add: nth_append del: upt_rec_numeral)
    next
      case 2
      then show ?thesis by (simp add: nth_append del: upt_rec_numeral)
    next
      case 3
      then have "\<not> n < 26" "\<not> n - 26 < 26" "n - 26 - 26 < 10" "n - 26 - 26 = n - 52"
        by linarith+
      with 3 show ?thesis by (simp add: nth_append del: upt_rec_numeral)
    next
      case 4
      then show ?thesis by (simp add: nth_append del: upt_rec_numeral)
    next
      case 5
      then show ?thesis by (simp add: nth_append del: upt_rec_numeral)
    qed
  qed
  finally show ?thesis .
qed

lemma a2b_b2a_nat:
  assumes "n < 64"
  shows "table_a2b_base64 (table_b2a_base64 ! n) = Some (of_nat n)"
proof -
  consider "n < 26" | "26 \<le> n" "n < 52" | "52 \<le> n" "n < 62" | "n = 62" | "n = 63"
    using assms by linarith
  then show ?thesis
    by cases (auto simp: table_a2b_base64_def b2a_code Let_def)
qed

lemma b2a_not_pad_nat:
  assumes "n < 64"
  shows "table_b2a_base64 ! n \<noteq> CHR ''=''"
proof
  assume "table_b2a_base64 ! n = CHR ''=''"
  then have "of_char (table_b2a_base64 ! n) = (61::nat)" by simp
  with assms show False by (simp add: b2a_code split: if_splits)
qed

text \<open>Two bytes are equal when their eight bits are.\<close>

lemma byte_eqI:
  fixes x y :: byte
  assumes "bit x 0 = bit y 0" "bit x 1 = bit y 1" "bit x 2 = bit y 2" "bit x 3 = bit y 3"
    "bit x 4 = bit y 4" "bit x 5 = bit y 5" "bit x 6 = bit y 6" "bit x 7 = bit y 7"
  shows "x = y"
proof (rule bit_word_eqI)
  fix n assume "n < LENGTH(8)"
  then have "n = 0 \<or> n = 1 \<or> n = 2 \<or> n = 3 \<or> n = 4 \<or> n = 5 \<or> n = 6 \<or> n = 7"
    by auto
  with assms show "bit x n = bit y n" by auto
qed

lemma sextet_bound:
  fixes v :: byte
  assumes "v AND 63 = v"
  shows "unat v < 64"
proof -
  have "unat (v AND 63) \<le> unat (63 :: byte)"
    by (rule word_and_le1 [THEN word_le_nat_alt [THEN iffD1]])
  with assms show ?thesis by simp
qed

lemma a2b_b2a:
  fixes v :: byte
  assumes "v AND 63 = v"
  shows "table_a2b_base64 (b2a v) = Some v"
  using a2b_b2a_nat [OF sextet_bound [OF assms]] by (simp add: b2a_def)

lemma b2a_not_pad:
  fixes v :: byte
  assumes "v AND 63 = v"
  shows "b2a v \<noteq> CHR ''=''"
  using b2a_not_pad_nat [OF sextet_bound [OF assms]] by (simp add: b2a_def)

text \<open>The four characters of a group stand for six bits each.\<close>

lemma sextet_1: "drop_bit 2 a AND 63 = drop_bit 2 (a::byte)"
  by (rule byte_eqI) (auto simp: bit_simps dest: bit_imp_le_length)

lemma sextet_2:
  "(push_bit 4 (a AND 3) OR drop_bit 4 b) AND 63 = push_bit 4 (a AND 3) OR drop_bit 4 (b::byte)"
  by (rule byte_eqI) (auto simp: bit_simps dest: bit_imp_le_length)

lemma sextet_2_last: "push_bit 4 (a AND 3) AND 63 = push_bit 4 (a AND (3::byte))"
  by (rule byte_eqI) (auto simp: bit_simps dest: bit_imp_le_length)

lemma sextet_3:
  "(push_bit 2 (b AND 15) OR drop_bit 6 c) AND 63 = push_bit 2 (b AND 15) OR drop_bit 6 (c::byte)"
  by (rule byte_eqI) (auto simp: bit_simps dest: bit_imp_le_length)

lemma sextet_3_last: "push_bit 2 (b AND 15) AND 63 = push_bit 2 (b AND (15::byte))"
  by (rule byte_eqI) (auto simp: bit_simps dest: bit_imp_le_length)

lemma sextet_4: "(c AND 63) AND 63 = c AND (63::byte)"
  by (rule byte_eqI) (auto simp: bit_simps dest: bit_imp_le_length)

text \<open>The decoder puts the bytes together again.\<close>

lemma byte_1:
  "push_bit 2 (drop_bit 2 a) OR drop_bit 4 (push_bit 4 (a AND 3) OR drop_bit 4 b) = (a::byte)"
  by (rule byte_eqI) (simp_all add: bit_simps)

lemma byte_1_last: "push_bit 2 (drop_bit 2 a) OR drop_bit 4 (push_bit 4 (a AND 3)) = (a::byte)"
  by (rule byte_eqI) (simp_all add: bit_simps)

lemma byte_2:
  "push_bit 4 ((push_bit 4 (a AND 3) OR drop_bit 4 b) AND 15) OR
   drop_bit 2 (push_bit 2 (b AND 15) OR drop_bit 6 c) = (b::byte)"
  by (rule byte_eqI) (simp_all add: bit_simps)

lemma byte_2_last:
  "push_bit 4 ((push_bit 4 (a AND 3) OR drop_bit 4 b) AND 15) OR
   drop_bit 2 (push_bit 2 (b AND 15)) = (b::byte)"
  by (rule byte_eqI) (simp_all add: bit_simps)

lemma byte_3:
  "push_bit 6 ((push_bit 2 (b AND 15) OR drop_bit 6 c) AND 3) OR (c AND 63) = (c::byte)"
  by (rule byte_eqI) (simp_all add: bit_simps)

text \<open>One step of the decoder on a character of the alphabet, and on final padding.\<close>

lemma a2b_loop_valid:
  fixes v :: byte
  assumes "v AND 63 = v"
  shows "a2b_loop 0 l p out (b2a v # cs) = a2b_loop 1 v 0 out cs"
    and "a2b_loop 1 l p out (b2a v # cs) =
           a2b_loop 2 (v AND 15) 0 (out @ [push_bit 2 l OR drop_bit 4 v]) cs"
    and "a2b_loop 2 l p out (b2a v # cs) =
           a2b_loop 3 (v AND 3) 0 (out @ [push_bit 4 l OR drop_bit 2 v]) cs"
    and "a2b_loop 3 l p out (b2a v # cs) = a2b_loop 0 0 0 (out @ [push_bit 6 l OR v]) cs"
  using a2b_b2a [OF assms] b2a_not_pad [OF assms] by simp_all

lemma a2b_loop_pad:
  "a2b_loop 2 l 0 out (CHR ''='' # CHR ''='' # cs) = Inr out"
  "a2b_loop 3 l 0 out (CHR ''='' # cs) = Inr out"
  by simp_all

lemma a2b_loop_b2a_base64: "a2b_loop 0 l p out (b2a_base64 bs) = Inr (out @ bs)"
proof (induction bs arbitrary: l p out rule: b2a_base64.induct)
  case 1
  show ?case by simp
next
  case (2 a)
  have "a2b_loop 0 l p out (b2a_base64 [a]) =
        a2b_loop 2 (push_bit 4 (a AND 3) AND 15) 0
          (out @ [push_bit 2 (drop_bit 2 a) OR drop_bit 4 (push_bit 4 (a AND 3))])
          [CHR ''='', CHR ''='']"
    by (simp only: b2a_base64.simps a2b_loop_valid(1) [OF sextet_1]
        a2b_loop_valid(2) [OF sextet_2_last])
  also have "\<dots> = Inr (out @ [a])"
    by (simp only: a2b_loop_pad byte_1_last)
  finally show ?case .
next
  case (3 a b)
  have "a2b_loop 0 l p out (b2a_base64 [a, b]) =
        a2b_loop 3 (push_bit 2 (b AND 15) AND 3) 0
          (out @ [push_bit 2 (drop_bit 2 a) OR drop_bit 4 (push_bit 4 (a AND 3) OR drop_bit 4 b)]
               @ [push_bit 4 ((push_bit 4 (a AND 3) OR drop_bit 4 b) AND 15)
                    OR drop_bit 2 (push_bit 2 (b AND 15))])
          [CHR ''='']"
    by (simp only: b2a_base64.simps a2b_loop_valid(1) [OF sextet_1]
        a2b_loop_valid(2) [OF sextet_2] a2b_loop_valid(3) [OF sextet_3_last] append_assoc)
  also have "\<dots> = Inr (out @ [a, b])"
    by (simp only: a2b_loop_pad byte_1 byte_2_last append.simps append_assoc)
  finally show ?case .
next
  case (4 a b c rest)
  have "a2b_loop 0 l p out (b2a_base64 (a # b # c # rest)) =
        a2b_loop 0 0 0
          (out @ [push_bit 2 (drop_bit 2 a) OR drop_bit 4 (push_bit 4 (a AND 3) OR drop_bit 4 b)]
               @ [push_bit 4 ((push_bit 4 (a AND 3) OR drop_bit 4 b) AND 15)
                    OR drop_bit 2 (push_bit 2 (b AND 15) OR drop_bit 6 c)]
               @ [push_bit 6 ((push_bit 2 (b AND 15) OR drop_bit 6 c) AND 3) OR (c AND 63)])
          (b2a_base64 rest)"
    by (simp only: b2a_base64.simps append.simps a2b_loop_valid(1) [OF sextet_1]
        a2b_loop_valid(2) [OF sextet_2] a2b_loop_valid(3) [OF sextet_3]
        a2b_loop_valid(4) [OF sextet_4] append_assoc)
  also have "\<dots> = a2b_loop 0 0 0 (out @ [a, b, c]) (b2a_base64 rest)"
    by (simp only: byte_1 byte_2 byte_3 append.simps append_assoc)
  also have "\<dots> = Inr ((out @ [a, b, c]) @ rest)"
    by (rule "4.IH")
  finally show ?case by simp
qed

text \<open>What the encoder writes is ASCII.\<close>

lemma b2a_ascii:
  fixes v :: byte
  assumes "v AND 63 = v"
  shows "(of_char (b2a v) :: nat) < 128"
  using sextet_bound [OF assms] by (auto simp: b2a_def b2a_code)

lemma b2a_base64_ascii: "c \<in> set (b2a_base64 bs) \<Longrightarrow> (of_char c :: nat) < 128"
proof (induction bs rule: b2a_base64.induct)
  case 1
  then show ?case by simp
next
  case (2 a)
  then show ?case
    using b2a_ascii [OF sextet_1, of a] b2a_ascii [OF sextet_2_last, of a] by auto
next
  case (3 a b)
  then show ?case
    using b2a_ascii [OF sextet_1, of a] b2a_ascii [OF sextet_2, of a b]
      b2a_ascii [OF sextet_3_last, of b] by auto
next
  case (4 a b c rest)
  then show ?case
    using b2a_ascii [OF sextet_1, of a] b2a_ascii [OF sextet_2, of a b]
      b2a_ascii [OF sextet_3, of b c] b2a_ascii [OF sextet_4, of c] by auto
qed

lemma b64decode_b64encode: "b64decode (JStr (b64encode chunk)) = Inr chunk"
proof -
  have "\<not> (\<exists>c \<in> set (b2a_base64 chunk). 128 \<le> (of_char c :: nat))"
    using b2a_base64_ascii [of _ chunk] by (auto simp: not_le)
  then show ?thesis
    using a2b_loop_b2a_base64 [of 0 0 "[]" chunk] by (simp add: b64encode_def)
qed

section \<open>The shape of a run of the relay\<close>

lemma registered_other:
  "session_id \<notin> set (map fst calls) \<Longrightarrow> registered calls reg session_id = reg session_id"
  by (induction calls arbitrary: reg) (auto simp: call_custom_def)

lemma media_stream_registry:
  "fst (media_stream repr cfg STREAMS_SETTINGS session_id world) = STREAMS_SETTINGS"
  by (simp add: media_stream_def)

lemma media_stream_refused:
  assumes "STREAMS_SETTINGS session_id = None"
  shows "snd (snd (media_stream repr cfg STREAMS_SETTINGS session_id world)) = [WsClose]"
  using assms by (simp add: media_stream_def split: option.splits)

lemma initialise_streams:
  assumes "streams world"
  shows "initialise (raises world) settings =
    (None, [ModelSend (session_update settings), ModelSend greeting_item, ModelSend response_create])"
  using assms by (simp add: initialise_def streams_def)

lemma media_stream_streams:
  assumes "STREAMS_SETTINGS session_id = Some settings" and "streams world"
  shows "snd (media_stream repr cfg STREAMS_SETTINGS session_id world) =
    (if a_pump_done repr world then
       (Returned,
        [WsAccept, ModelConnect, ModelSend (session_update settings), ModelSend greeting_item,
         ModelSend response_create, TaskCreated T1, TaskCreated T2] @
        snd (run_pumps repr initial_session (schedule world)) @
        cancel_pending (streamed repr world) @
        post_call cfg world settings (transcript (streamed repr world)))
     else
       (Waiting,
        [WsAccept, ModelConnect, ModelSend (session_update settings), ModelSend greeting_item,
         ModelSend response_create, TaskCreated T1, TaskCreated T2] @
        snd (run_pumps repr initial_session (schedule world))))"
proof -
  have acc: "raises world Accept = None" and con: "raises world Connect = None"
    using assms(2) by (simp_all add: streams_def)
  obtain s acts where run: "run_pumps repr initial_session (schedule world) = (s, acts)"
    by (cases "run_pumps repr initial_session (schedule world)")
  then have s: "streamed repr world = s" by (simp add: streamed_def)
  show ?thesis
    unfolding media_stream_def
    by (simp add: assms(1) acc con initialise_streams [OF assms(2)] run s a_pump_done_def)
qed

lemma example_registry_lookup:
  "example_registry ''abc123'' = Some example_settings"
  by (simp add: example_registry_def call_custom_def example_request_def example_settings_def)

lemma example_world_streams: "streams (example_world evs)"
  by (simp add: streams_def example_world_def no_fault_def)

section \<open>One resumption of a pump\<close>

lemma media_payload_SomeD:
  assumes "media_payload data = Some p"
  shows "py_getitem data ''event'' = Inr (JStr ''media'')"
    and "\<exists>media. py_getitem data ''media'' = Inr media \<and> py_getitem media ''payload'' = Inr p"
  using assms by (auto simp: media_payload_def split: sum.splits if_splits)

lemma twilio_to_openai_media:
  assumes "media_payload data = Some p"
  shows "twilio_to_openai s (Text (Some data) fault) =
    (case fault of
       None \<Rightarrow> (s, [ModelSend (audio_append p)])
     | Some e \<Rightarrow> t1_stop s [ModelSend (audio_append p)])"
proof -
  from media_payload_SomeD [OF assms] obtain media where
    ev: "py_getitem data ''event'' = Inr (JStr ''media'')" and
    m: "py_getitem data ''media'' = Inr media" and
    p: "py_getitem media ''payload'' = Inr p" by blast
  show ?thesis
    by (simp add: twilio_to_openai_def ev m p)
qed

lemma twilio_to_openai_other:
  assumes "media_payload data = None"
  shows "twilio_to_openai s (Text (Some data) fault) = (s, []) \<or>
         twilio_to_openai s (Text (Some data) fault) = t1_stop s [] \<or>
         (py_getitem data ''event'' = Inr (JStr ''start'') \<and>
          (\<exists>sid. twilio_to_openai s (Text (Some data) fault) = (s\<lparr>stream_sid := sid\<rparr>, [])))"
proof (cases "py_getitem data ''event''")
  case (Inl e)
  then show ?thesis by (simp add: twilio_to_openai_def)
next
  case (Inr ev)
  show ?thesis
  proof (cases "ev = JStr ''start''")
    case True
    with Inr show ?thesis
      by (cases "py_getitem data ''start''";
          cases "py_getitem (projr (py_getitem data ''start'')) ''streamSid''")
         (auto simp: twilio_to_openai_def)
  next
    case False
    note not_start = this
    show ?thesis
    proof (cases "ev = JStr ''media''")
      case True
      with Inr assms have
        "py_getitem data ''media'' = Inr media \<Longrightarrow> \<exists>e. py_getitem media ''payload'' = Inl e"
        for media
        by (cases "py_getitem media ''payload''") (auto simp: media_payload_def)
      with Inr True not_start show ?thesis
        by (cases "py_getitem data ''media''") (auto simp: twilio_to_openai_def)
    next
      case False
      with Inr not_start show ?thesis by (simp add: twilio_to_openai_def)
    qed
  qed
qed

lemma twilio_to_openai_shape:
  "twilio_to_openai s d =
     (s, map (\<lambda>p. ModelSend (audio_append p)) (inbound_payloads [ToTwilioPump d])) \<or>
   twilio_to_openai s d =
     t1_stop s (map (\<lambda>p. ModelSend (audio_append p)) (inbound_payloads [ToTwilioPump d])) \<or>
   (start_event (ToTwilioPump d) \<and> inbound_payloads [ToTwilioPump d] = [] \<and>
    (\<exists>sid. twilio_to_openai s d = (s\<lparr>stream_sid := sid\<rparr>, [])))"
proof (cases d)
  case Disconnect
  then show ?thesis by (simp add: twilio_to_openai_def)
next
  case (Text raw fault)
  show ?thesis
  proof (cases raw)
    case None
    with Text show ?thesis by (simp add: twilio_to_openai_def)
  next
    case (Some data)
    show ?thesis
    proof (cases "media_payload data")
      case None
      with twilio_to_openai_other [OF None, of s fault] Text Some show ?thesis
        by auto
    next
      case (Some p)
      with twilio_to_openai_media [OF Some, of s fault] Text \<open>raw = Some data\<close> show ?thesis
        by (cases fault) auto
    qed
  qed
qed

lemma completion_SomeD:
  assumes "completion evt = Some c"
  shows "\<exists>ty. py_get evt ''type'' = Inr ty \<and> py_getitem evt ''transcript'' = Inr (snd c) \<and>
     ((ty = JStr ''conversation.item.input_audio_transcription.completed'' \<and> fst c = User) \<or>
      (ty = JStr ''response.audio_transcript.done'' \<and> fst c = Assistant))"
  using assms by (auto simp: completion_def split: sum.splits if_splits)

lemma openai_to_twilio_completion:
  assumes "completion evt = Some c"
  shows "openai_to_twilio repr s (Text (Some evt) fault) =
    (s\<lparr>transcript := transcript s @ [render repr c]\<rparr>, [])"
proof -
  from completion_SomeD [OF assms] obtain ty where
    ty: "py_get evt ''type'' = Inr ty" and
    t: "py_getitem evt ''transcript'' = Inr (snd c)" and
    sp: "(ty = JStr ''conversation.item.input_audio_transcription.completed'' \<and> fst c = User) \<or>
      (ty = JStr ''response.audio_transcript.done'' \<and> fst c = Assistant)" by blast
  from sp show ?thesis
  proof
    assume "ty = JStr ''conversation.item.input_audio_transcription.completed'' \<and> fst c = User"
    then show ?thesis
      by (simp add: openai_to_twilio_def ty t capture_def render_def)
  next
    assume "ty = JStr ''response.audio_transcript.done'' \<and> fst c = Assistant"
    then show ?thesis
      by (simp add: openai_to_twilio_def ty t capture_def render_def)
  qed
qed

lemma delta_chunk_SomeD:
  assumes "delta_chunk evt = Some chunk"
  shows "py_get evt ''type'' = Inr (JStr ''response.audio.delta'')"
    and "\<exists>delta. py_getitem evt ''delta'' = Inr delta \<and> truthy delta \<and> b64decode delta = Inr chunk"
  using assms by (auto simp: delta_chunk_def split: sum.splits if_splits)

lemma completion_not_delta:
  assumes "completion evt = Some c"
  shows "delta_chunk evt = None"
proof (cases "delta_chunk evt")
  case None
  then show ?thesis .
next
  case (Some chunk)
  from delta_chunk_SomeD(1) [OF Some] completion_SomeD [OF assms] show ?thesis
    by auto
qed

lemma py_get_getitem: "py_getitem evt k = Inr v \<Longrightarrow> py_get evt k = Inr v"
  by (cases evt) (auto split: option.splits)

lemma py_get_truthy_getitem:
  assumes "py_get evt k = Inr v" and "truthy v"
  shows "py_getitem evt k = Inr v"
  using assms by (cases evt) (auto split: option.splits)

lemma openai_to_twilio_delta:
  assumes "delta_chunk evt = Some chunk"
  shows "openai_to_twilio repr s (Text (Some evt) fault) =
    (case fault of
       None \<Rightarrow> (s, [WsSendJson (media_out (stream_sid s) (b64encode chunk))])
     | Some e \<Rightarrow> t2_stop s [WsSendJson (media_out (stream_sid s) (b64encode chunk))])"
proof -
  from delta_chunk_SomeD [OF assms] obtain delta where
    ty: "py_get evt ''type'' = Inr (JStr ''response.audio.delta'')" and
    d: "py_getitem evt ''delta'' = Inr delta" and tr: "truthy delta" and
    dec: "b64decode delta = Inr chunk" by blast
  show ?thesis
    by (simp add: openai_to_twilio_def ty d py_get_getitem [OF d] tr dec forward_audio_def Let_def)
qed

lemma openai_to_twilio_other:
  assumes "completion evt = None" and "delta_chunk evt = None"
  shows "openai_to_twilio repr s (Text (Some evt) fault) = (s, []) \<or>
         openai_to_twilio repr s (Text (Some evt) fault) = t2_stop s []"
proof (cases "py_get evt ''type''")
  case (Inl e)
  then show ?thesis by (simp add: openai_to_twilio_def)
next
  case (Inr ty)
  consider (user) "ty = JStr ''conversation.item.input_audio_transcription.completed''"
    | (assistant) "ty = JStr ''response.audio_transcript.done''"
    | (delta) "ty = JStr ''response.audio.delta''"
    | (other) "ty \<noteq> JStr ''conversation.item.input_audio_transcription.completed''"
        "ty \<noteq> JStr ''response.audio_transcript.done''" "ty \<noteq> JStr ''response.audio.delta''"
    by blast
  then show ?thesis
  proof cases
    case user
    with Inr assms(1) obtain e where "py_getitem evt ''transcript'' = Inl e"
      by (cases "py_getitem evt ''transcript''") (auto simp: completion_def)
    with Inr user show ?thesis by (simp add: openai_to_twilio_def capture_def)
  next
    case assistant
    with Inr assms(1) obtain e where "py_getitem evt ''transcript'' = Inl e"
      by (cases "py_getitem evt ''transcript''") (auto simp: completion_def)
    with Inr assistant show ?thesis by (simp add: openai_to_twilio_def capture_def)
  next
    case delta
    obtain v where v: "py_get evt ''delta'' = Inr v"
      using Inr by (cases evt) auto
    show ?thesis
    proof (cases "truthy v")
      case True
      with v have g: "py_getitem evt ''delta'' = Inr v" by (rule py_get_truthy_getitem)
      with Inr delta True assms(2) obtain e where "b64decode v = Inl e"
        by (cases "b64decode v") (auto simp: delta_chunk_def)
      with Inr delta v g True show ?thesis
        by (simp add: openai_to_twilio_def forward_audio_def)
    next
      case False
      with Inr delta v show ?thesis by (simp add: openai_to_twilio_def)
    qed
  next
    case other
    with Inr show ?thesis by (simp add: openai_to_twilio_def)
  qed
qed

lemma openai_to_twilio_shape:
  "openai_to_twilio repr s d =
     (s\<lparr>transcript := transcript s @ map (render repr) (completions [ToModelPump d])\<rparr>,
      map (\<lambda>chunk. WsSendJson (media_out (stream_sid s) (b64encode chunk)))
        (delta_chunks [ToModelPump d])) \<or>
   (completions [ToModelPump d] = [] \<and>
    openai_to_twilio repr s d =
      t2_stop s (map (\<lambda>chunk. WsSendJson (media_out (stream_sid s) (b64encode chunk)))
        (delta_chunks [ToModelPump d])))"
proof (cases d)
  case Disconnect
  then show ?thesis by (simp add: openai_to_twilio_def)
next
  case (Text raw fault)
  show ?thesis
  proof (cases raw)
    case None
    with Text show ?thesis by (simp add: openai_to_twilio_def)
  next
    case (Some evt)
    show ?thesis
    proof (cases "completion evt")
      case (Some c)
      with openai_to_twilio_completion [OF Some, of repr s fault] completion_not_delta [OF Some]
        Text \<open>raw = Some evt\<close> show ?thesis by simp
    next
      case None
      note no_completion = this
      show ?thesis
      proof (cases "delta_chunk evt")
        case None
        with openai_to_twilio_other [OF no_completion None, of repr s fault] no_completion
          Text \<open>raw = Some evt\<close> show ?thesis by auto
      next
        case (Some chunk)
        with openai_to_twilio_delta [OF Some, of repr s fault] no_completion
          Text \<open>raw = Some evt\<close> show ?thesis by (cases fault) auto
      qed
    qed
  qed
qed

section \<open>What a step adds\<close>

lemma model_audio_append: "model_audio (xs @ ys) = model_audio xs @ model_audio ys"
  by (induction xs rule: model_audio.induct) (auto split: sum.splits)

lemma outbound_payloads_append:
  "outbound_payloads (xs @ ys) = outbound_payloads xs @ outbound_payloads ys"
  by (induction xs rule: outbound_payloads.induct) (auto split: sum.splits)

lemma model_audio_sends: "model_audio (map (\<lambda>p. ModelSend (audio_append p)) ps) = ps"
  by (induction ps) (auto simp: audio_append_def)

lemma model_audio_frames:
  "model_audio (map (\<lambda>chunk. WsSendJson (media_out sid (b64encode chunk))) chunks) = []"
  by (induction chunks) auto

lemma outbound_payloads_sends:
  "outbound_payloads (map (\<lambda>p. ModelSend (audio_append p)) ps) = []"
  by (induction ps) auto

lemma outbound_payloads_frames:
  "outbound_payloads (map (\<lambda>chunk. WsSendJson (media_out sid (b64encode chunk))) chunks) =
     map (\<lambda>chunk. JStr (b64encode chunk)) chunks"
  by (induction chunks) (auto simp: media_out_def)

lemma completions_Cons: "completions (ev # evs) = completions [ev] @ completions evs"
  by (cases "(ev # evs)" rule: completions.cases) (auto split: option.splits)

lemma inbound_payloads_Cons:
  "inbound_payloads (ev # evs) = inbound_payloads [ev] @ inbound_payloads evs"
  by (cases "(ev # evs)" rule: inbound_payloads.cases) (auto split: option.splits)

lemma delta_chunks_Cons: "delta_chunks (ev # evs) = delta_chunks [ev] @ delta_chunks evs"
  by (cases "(ev # evs)" rule: delta_chunks.cases) (auto split: option.splits)

lemma other_pump_payloads:
  "completions [ToTwilioPump d] = []" "delta_chunks [ToTwilioPump d] = []"
  "inbound_payloads [ToModelPump d] = []"
  by simp_all

text \<open>The Twilio pump, when it is resumed.\<close>

lemma twilio_step:
  assumes "twilio_to_openai s d = (s', acts)"
  shows "transcript s' = transcript s" and "t2_done s' = t2_done s"
    and "t1_done s' \<longleftrightarrow> t1_done s \<or> TaskDone T1 \<in> set acts"
    and "TaskDone T2 \<notin> set acts"
    and "\<forall>a \<in> set acts. pump_action a"
    and "outbound_payloads acts = []"
    and "model_audio acts = inbound_payloads [ToTwilioPump d]"
    and "\<not> start_event (ToTwilioPump d) \<Longrightarrow> stream_sid s' = stream_sid s"
  using assms twilio_to_openai_shape [of s d]
  by (auto simp: t1_stop_def model_audio_append model_audio_sends outbound_payloads_append
      outbound_payloads_sends)

lemma model_step:
  assumes "openai_to_twilio repr s d = (s', acts)"
  shows "stream_sid s' = stream_sid s" and "t1_done s' = t1_done s"
    and "t2_done s' \<longleftrightarrow> t2_done s \<or> TaskDone T2 \<in> set acts"
    and "TaskDone T1 \<notin> set acts"
    and "\<forall>a \<in> set acts. pump_action a"
    and "model_audio acts = []"
    and "transcript s' = transcript s @ map (render repr) (completions [ToModelPump d])"
    and "outbound_payloads acts =
           map (\<lambda>chunk. JStr (b64encode chunk)) (delta_chunks [ToModelPump d])"
  using assms openai_to_twilio_shape [of repr s d]
  by (auto simp: t2_stop_def model_audio_append model_audio_frames outbound_payloads_append
      outbound_payloads_frames)

lemma pump_step_facts:
  assumes "pump_step repr s ev = (s', acts)"
  shows "transcript s' =
           transcript s @ (if t2_done s then [] else map (render repr) (completions [ev]))"
    and "model_audio acts = (if t1_done s then [] else inbound_payloads [ev])"
    and "outbound_payloads acts =
           (if t2_done s then [] else map (\<lambda>chunk. JStr (b64encode chunk)) (delta_chunks [ev]))"
    and "t1_done s' \<longleftrightarrow> t1_done s \<or> TaskDone T1 \<in> set acts"
    and "t2_done s' \<longleftrightarrow> t2_done s \<or> TaskDone T2 \<in> set acts"
    and "\<forall>a \<in> set acts. pump_action a"
    and "\<not> start_event ev \<Longrightarrow> stream_sid s' = stream_sid s"
proof -
  show "transcript s' =
           transcript s @ (if t2_done s then [] else map (render repr) (completions [ev]))"
    using assms twilio_step(1) model_step(7)
    by (cases ev) (auto simp: pump_step_def split: if_splits)
  show "model_audio acts = (if t1_done s then [] else inbound_payloads [ev])"
    using assms twilio_step(7) model_step(6)
    by (cases ev) (auto simp: pump_step_def split: if_splits)
  show "outbound_payloads acts =
           (if t2_done s then [] else map (\<lambda>chunk. JStr (b64encode chunk)) (delta_chunks [ev]))"
    using assms twilio_step(6) model_step(8)
    by (cases ev) (auto simp: pump_step_def split: if_splits)
  show "t1_done s' \<longleftrightarrow> t1_done s \<or> TaskDone T1 \<in> set acts"
    using assms twilio_step(3) model_step(2,4)
    by (cases ev) (auto simp: pump_step_def split: if_splits)
  show "t2_done s' \<longleftrightarrow> t2_done s \<or> TaskDone T2 \<in> set acts"
    using assms twilio_step(2,4) model_step(3)
    by (cases ev) (auto simp: pump_step_def split: if_splits)
  show "\<forall>a \<in> set acts. pump_action a"
    using assms twilio_step(5) model_step(5)
    by (cases ev) (auto simp: pump_step_def split: if_splits)
  show "stream_sid s' = stream_sid s" if "\<not> start_event ev"
    using assms that twilio_step(8) model_step(1)
    by (cases ev) (auto simp: pump_step_def split: if_splits)
qed

section \<open>What a schedule adds\<close>

lemma run_pumps_Cons:
  assumes "pump_step repr s ev = (s1, acts1)" and "run_pumps repr s1 evs = (s2, acts2)"
  shows "run_pumps repr s (ev # evs) = (s2, acts1 @ acts2)"
  using assms by simp

lemma run_pumps_ConsE:
  assumes "run_pumps repr s (ev # evs) = (s', acts)"
  obtains s1 acts1 acts2 where "pump_step repr s ev = (s1, acts1)"
    and "run_pumps repr s1 evs = (s', acts2)" and "acts = acts1 @ acts2"
  using assms by (auto split: prod.splits)

lemma run_pumps_append:
  assumes "run_pumps repr s xs = (s1, acts1)" and "run_pumps repr s1 ys = (s2, acts2)"
  shows "run_pumps repr s (xs @ ys) = (s2, acts1 @ acts2)"
  using assms
proof (induction xs arbitrary: s acts1)
  case Nil
  then show ?case by simp
next
  case (Cons ev xs)
  from Cons.prems(1) obtain s0 a0 a1 where
    step: "pump_step repr s ev = (s0, a0)" and rest: "run_pumps repr s0 xs = (s1, a1)"
    and acts1: "acts1 = a0 @ a1" by (rule run_pumps_ConsE)
  from Cons.IH [OF rest Cons.prems(2)] have "run_pumps repr s0 (xs @ ys) = (s2, a1 @ acts2)" .
  with step acts1 show ?case by simp
qed

lemma run_pumps_flags:
  assumes "run_pumps repr s evs = (s', acts)"
  shows "(t1_done s' \<longleftrightarrow> t1_done s \<or> TaskDone T1 \<in> set acts) \<and>
         (t2_done s' \<longleftrightarrow> t2_done s \<or> TaskDone T2 \<in> set acts) \<and>
         (\<forall>a \<in> set acts. pump_action a)"
  using assms
proof (induction evs arbitrary: s acts)
  case Nil
  then show ?case by simp
next
  case (Cons ev evs)
  from Cons.prems obtain s1 acts1 acts2 where
    step: "pump_step repr s ev = (s1, acts1)" and rest: "run_pumps repr s1 evs = (s', acts2)"
    and acts: "acts = acts1 @ acts2" by (rule run_pumps_ConsE)
  from Cons.IH [OF rest] pump_step_facts(4,5,6) [OF step] acts show ?case
    by auto
qed

lemma run_pumps_transcript:
  assumes "run_pumps repr s evs = (s', acts)"
  shows "(t2_done s \<longrightarrow> transcript s' = transcript s) \<and>
         (\<not> t2_done s' \<longrightarrow> transcript s' = transcript s @ map (render repr) (completions evs)) \<and>
         (\<exists>k. transcript s' = transcript s @ map (render repr) (take k (completions evs)))"
  using assms
proof (induction evs arbitrary: s acts)
  case Nil
  then show ?case by simp
next
  case (Cons ev evs)
  from Cons.prems obtain s1 acts1 acts2 where
    step: "pump_step repr s ev = (s1, acts1)" and rest: "run_pumps repr s1 evs = (s', acts2)"
    and acts: "acts = acts1 @ acts2" by (rule run_pumps_ConsE)
  note ih = Cons.IH [OF rest]
  note tr = pump_step_facts(1) [OF step]
  note fl = pump_step_facts(5) [OF step]
  have mono: "t2_done s1 \<Longrightarrow> t2_done s'"
    using run_pumps_flags [OF rest] by simp
  show ?case
  proof (cases "t2_done s")
    case True
    with fl have "t2_done s1" by simp
    with ih tr True mono have "transcript s' = transcript s" "t2_done s'" by simp_all
    with True show ?thesis by (auto intro: exI [of _ 0])
  next
    case False
    with tr have s1: "transcript s1 = transcript s @ map (render repr) (completions [ev])"
      by simp
    from ih obtain k where
      k: "transcript s' = transcript s1 @ map (render repr) (take k (completions evs))"
      by blast
    have "transcript s' = transcript s @
        map (render repr) (take (length (completions [ev]) + k) (completions (ev # evs)))"
      unfolding k s1 by (subst (2) completions_Cons) simp
    moreover have "transcript s' = transcript s @ map (render repr) (completions (ev # evs))"
      if "\<not> t2_done s'"
    proof -
      from that mono have "\<not> t2_done s1" by blast
      with ih that have "transcript s' = transcript s1 @ map (render repr) (completions evs)"
        by simp
      then show ?thesis unfolding s1 by (subst completions_Cons) simp
    qed
    ultimately show ?thesis using False by blast
  qed
qed

lemma run_pumps_model_audio:
  assumes "run_pumps repr s evs = (s', acts)"
  shows "(t1_done s \<longrightarrow> model_audio acts = []) \<and>
         (\<not> t1_done s' \<longrightarrow> model_audio acts = inbound_payloads evs) \<and>
         (\<exists>k. model_audio acts = take k (inbound_payloads evs))"
  using assms
proof (induction evs arbitrary: s acts)
  case Nil
  then show ?case by simp
next
  case (Cons ev evs)
  from Cons.prems obtain s1 acts1 acts2 where
    step: "pump_step repr s ev = (s1, acts1)" and rest: "run_pumps repr s1 evs = (s', acts2)"
    and acts: "acts = acts1 @ acts2" by (rule run_pumps_ConsE)
  note ih = Cons.IH [OF rest]
  note au = pump_step_facts(2) [OF step]
  note fl = pump_step_facts(4) [OF step]
  have mono: "t1_done s1 \<Longrightarrow> t1_done s'"
    using run_pumps_flags [OF rest] by simp
  show ?case
  proof (cases "t1_done s")
    case True
    with fl have "t1_done s1" by simp
    with ih au True mono acts have "model_audio acts = []" "t1_done s'"
      by (simp_all add: model_audio_append)
    then show ?thesis by (auto intro: exI [of _ 0])
  next
    case False
    with au have a1: "model_audio acts1 = inbound_payloads [ev]" by simp
    from ih obtain k where k: "model_audio acts2 = take k (inbound_payloads evs)"
      by blast
    have "model_audio acts =
        take (length (inbound_payloads [ev]) + k) (inbound_payloads (ev # evs))"
      unfolding acts model_audio_append a1 k by (subst (2) inbound_payloads_Cons) simp
    moreover have "model_audio acts = inbound_payloads (ev # evs)" if "\<not> t1_done s'"
    proof -
      from that mono have "\<not> t1_done s1" by blast
      with ih that have "model_audio acts2 = inbound_payloads evs" by simp
      then show ?thesis
        unfolding acts model_audio_append a1 by (subst inbound_payloads_Cons) simp
    qed
    ultimately show ?thesis using False by blast
  qed
qed

lemma run_pumps_outbound_payloads:
  assumes "run_pumps repr s evs = (s', acts)"
  shows "(t2_done s \<longrightarrow> outbound_payloads acts = []) \<and>
         (\<not> t2_done s' \<longrightarrow>
            outbound_payloads acts = map (\<lambda>chunk. JStr (b64encode chunk)) (delta_chunks evs)) \<and>
         (\<exists>k. outbound_payloads acts =
            map (\<lambda>chunk. JStr (b64encode chunk)) (take k (delta_chunks evs)))"
  using assms
proof (induction evs arbitrary: s acts)
  case Nil
  then show ?case by simp
next
  case (Cons ev evs)
  from Cons.prems obtain s1 acts1 acts2 where
    step: "pump_step repr s ev = (s1, acts1)" and rest: "run_pumps repr s1 evs = (s', acts2)"
    and acts: "acts = acts1 @ acts2" by (rule run_pumps_ConsE)
  note ih = Cons.IH [OF rest]
  note ou = pump_step_facts(3) [OF step]
  note fl = pump_step_facts(5) [OF step]
  have mono: "t2_done s1 \<Longrightarrow> t2_done s'"
    using run_pumps_flags [OF rest] by simp
  show ?case
  proof (cases "t2_done s")
    case True
    with fl have "t2_done s1" by simp
    with ih ou True mono acts have "outbound_payloads acts = []" "t2_done s'"
      by (simp_all add: outbound_payloads_append)
    then show ?thesis by (auto intro: exI [of _ 0])
  next
    case False
    with ou have a1:
      "outbound_payloads acts1 = map (\<lambda>chunk. JStr (b64encode chunk)) (delta_chunks [ev])"
      by simp
    from ih obtain k where k:
      "outbound_payloads acts2 = map (\<lambda>chunk. JStr (b64encode chunk)) (take k (delta_chunks evs))"
      by blast
    have "outbound_payloads acts = map (\<lambda>chunk. JStr (b64encode chunk))
        (take (length (delta_chunks [ev]) + k) (delta_chunks (ev # evs)))"
      unfolding acts outbound_payloads_append a1 k by (subst (2) delta_chunks_Cons) simp
    moreover have
      "outbound_payloads acts = map (\<lambda>chunk. JStr (b64encode chunk)) (delta_chunks (ev # evs))"
      if "\<not> t2_done s'"
    proof -
      from that mono have "\<not> t2_done s1" by blast
      with ih that have
        "outbound_payloads acts2 = map (\<lambda>chunk. JStr (b64encode chunk)) (delta_chunks evs)"
        by simp
      then show ?thesis
        unfolding acts outbound_payloads_append a1 by (subst delta_chunks_Cons) simp
    qed
    ultimately show ?thesis using False by blast
  qed
qed

lemma run_pumps_stream_sid:
  assumes "run_pumps repr s evs = (s', acts)" and "\<forall>ev \<in> set evs. \<not> start_event ev"
  shows "stream_sid s' = stream_sid s"
  using assms
proof (induction evs arbitrary: s acts)
  case Nil
  then show ?case by simp
next
  case (Cons ev evs)
  from Cons.prems(1) obtain s1 acts1 acts2 where
    step: "pump_step repr s ev = (s1, acts1)" and rest: "run_pumps repr s1 evs = (s', acts2)"
    and acts: "acts = acts1 @ acts2" by (rule run_pumps_ConsE)
  from Cons.prems(2) have "\<not> start_event ev" and "\<forall>ev \<in> set evs. \<not> start_event ev"
    by simp_all
  with Cons.IH [OF rest] pump_step_facts(7) [OF step] show ?case by simp
qed

section \<open>The end of a call\<close>

lemma pump_action_not_post:
  assumes "pump_action a"
  shows "\<not> is_summarize a" and "\<not> is_notify a" and "\<not> is_llm_request a"
    and "a \<noteq> ModelClose" and "a \<noteq> TaskCancel p"
  using assms by (cases a; simp)+

lemma summarize_conversation_acts:
  "snd (summarize_conversation create conv) = [] \<or>
   (\<exists>request. snd (summarize_conversation create conv) = [LLMRequest request])"
  by (simp add: summarize_conversation_def Let_def)

lemma summarize_conversation_blank:
  assumes "strip conv = []"
  shows "summarize_conversation create conv = (Inr ''No conversation content to summarize.'', [])"
  using assms by (simp add: summarize_conversation_def)

lemma strip_Nil: "strip [] = []"
  by (simp add: strip_def rstrip_def lstrip.simps rstrip_rev.simps)

lemma send_summary_email_acts:
  "snd (send_summary_email cfg send to_email summary) = [] \<or>
   (\<exists>message. snd (send_summary_email cfg send to_email summary) = [MailSend message])"
  by (auto simp: send_summary_email_def Let_def split: option.splits sum.splits)

lemma post_call_shape:
  "post_call cfg world settings lines =
     [ModelClose, Summarize (join [CHR 0x0A] lines)] @
     snd (summarize_conversation (chat_completions_create world) (join [CHR 0x0A] lines)) @
     [Notify (email settings)
        (case fst (summarize_conversation (chat_completions_create world)
                     (join [CHR 0x0A] lines)) of
           Inl e \<Rightarrow> ''Sorry, I couldn't generate a summary.''
         | Inr text \<Rightarrow> text)] @
     snd (send_summary_email cfg (sg_send world) (email settings)
        (case fst (summarize_conversation (chat_completions_create world)
                     (join [CHR 0x0A] lines)) of
           Inl e \<Rightarrow> ''Sorry, I couldn't generate a summary.''
         | Inr text \<Rightarrow> text))"
  by (simp add: post_call_def Let_def split: prod.splits)

lemma post_call_counts:
  "filter is_summarize (post_call cfg world settings lines) = [Summarize (join [CHR 0x0A] lines)]"
  "length (filter is_notify (post_call cfg world settings lines)) = 1"
  "hd (post_call cfg world settings lines) = ModelClose"
proof -
  let ?conv = "join [CHR 0x0A] lines"
  let ?summary = "case fst (summarize_conversation (chat_completions_create world) ?conv) of
           Inl e \<Rightarrow> ''Sorry, I couldn't generate a summary.''
         | Inr text \<Rightarrow> text"
  from summarize_conversation_acts [of "chat_completions_create world" ?conv]
    send_summary_email_acts [of cfg "sg_send world" "email settings" ?summary]
  show "filter is_summarize (post_call cfg world settings lines) = [Summarize ?conv]"
    and "length (filter is_notify (post_call cfg world settings lines)) = 1"
    and "hd (post_call cfg world settings lines) = ModelClose"
    unfolding post_call_shape by auto
qed

lemma media_stream_complete:
  assumes "STREAMS_SETTINGS session_id = Some settings" and "streams world"
    and "a_pump_done repr world"
  shows "media_stream repr cfg STREAMS_SETTINGS session_id world =
    (STREAMS_SETTINGS, Returned,
     [WsAccept, ModelConnect, ModelSend (session_update settings), ModelSend greeting_item,
      ModelSend response_create, TaskCreated T1, TaskCreated T2] @
     snd (run_pumps repr initial_session (schedule world)) @
     cancel_pending (streamed repr world) @
     post_call cfg world settings (transcript (streamed repr world)))"
proof -
  have "media_stream repr cfg STREAMS_SETTINGS session_id world =
      (fst (media_stream repr cfg STREAMS_SETTINGS session_id world),
       snd (media_stream repr cfg STREAMS_SETTINGS session_id world))"
    by simp
  then show ?thesis
    using assms media_stream_streams [where STREAMS_SETTINGS = STREAMS_SETTINGS
        and session_id = session_id and settings = settings and world = world
        and repr = repr and cfg = cfg]
    by (simp add: media_stream_registry)
qed

section \<open>Where the summary stands in a run\<close>

lemma initialise_acts:
  "\<forall>a \<in> set (snd (initialise raising settings)). \<exists>msg. a = ModelSend msg"
  by (simp add: initialise_def split: option.splits)

lemma initialise_raises:
  assumes "\<not> streams world" and "raises world Accept = None" and "raises world Connect = None"
  shows "\<exists>e. fst (initialise (raises world) settings) = Some e"
proof (cases "raises world (InitSend 0)")
  case (Some e)
  then show ?thesis by (simp add: initialise_def)
next
  case None
  note first = this
  show ?thesis
  proof (cases "raises world (InitSend 1)")
    case (Some e)
    with first show ?thesis by (simp add: initialise_def)
  next
    case None
    with first assms obtain e where "raises world (InitSend 2) = Some e"
      by (auto simp: streams_def)
    with first None show ?thesis by (simp add: initialise_def)
  qed
qed

lemma media_stream_early:
  assumes "STREAMS_SETTINGS session_id = None \<or> \<not> streams world"
  shows "\<forall>a \<in> set (snd (snd (media_stream repr cfg STREAMS_SETTINGS session_id world))).
           \<not> is_summarize a \<and> \<not> is_notify a"
proof (cases "STREAMS_SETTINGS session_id")
  case None
  then show ?thesis by (simp add: media_stream_refused)
next
  case (Some settings)
  with assms have ns: "\<not> streams world" by simp
  show ?thesis
  proof (cases "raises world Accept")
    case (Some e)
    with \<open>STREAMS_SETTINGS session_id = Some settings\<close> show ?thesis
      by (simp add: media_stream_def)
  next
    case None
    note acc = this
    show ?thesis
    proof (cases "raises world Connect")
      case (Some e)
      with acc \<open>STREAMS_SETTINGS session_id = Some settings\<close> show ?thesis
        by (simp add: media_stream_def split: option.splits)
    next
      case None
      from initialise_raises [OF ns acc None, of settings] obtain e acts where
        init: "initialise (raises world) settings = (Some e, acts)"
        by (cases "initialise (raises world) settings") auto
      with initialise_acts [of "raises world" settings]
      have acts: "\<forall>a \<in> set acts. \<exists>msg. a = ModelSend msg" by simp
      with init acc None \<open>STREAMS_SETTINGS session_id = Some settings\<close> show ?thesis
        by (auto simp: media_stream_def)
    qed
  qed
qed

lemma media_stream_waiting:
  assumes "STREAMS_SETTINGS session_id = Some settings" and "streams world"
    and "\<not> a_pump_done repr world"
  shows "\<forall>a \<in> set (snd (snd (media_stream repr cfg STREAMS_SETTINGS session_id world))).
           \<not> is_summarize a \<and> \<not> is_notify a"
proof -
  obtain s acts where run: "run_pumps repr initial_session (schedule world) = (s, acts)"
    by (cases "run_pumps repr initial_session (schedule world)")
  from run_pumps_flags [OF run] pump_action_not_post(1,2)
  have "\<forall>a \<in> set acts. \<not> is_summarize a \<and> \<not> is_notify a" by blast
  with run assms(3) show ?thesis
    using media_stream_streams [where STREAMS_SETTINGS = STREAMS_SETTINGS
        and session_id = session_id and repr = repr and cfg = cfg, OF assms(1,2)]
    by auto
qed

lemma media_stream_complete_summary:
  assumes "STREAMS_SETTINGS session_id = Some settings" and "streams world"
    and "a_pump_done repr world"
  shows "length (filter is_summarize
           (snd (snd (media_stream repr cfg STREAMS_SETTINGS session_id world)))) = 1"
    and "length (filter is_notify
           (snd (snd (media_stream repr cfg STREAMS_SETTINGS session_id world)))) = 1"
    and "\<forall>a \<in> set (before_drain
           (snd (snd (media_stream repr cfg STREAMS_SETTINGS session_id world)))).
           \<not> is_summarize a \<and> \<not> is_notify a"
    and "\<exists>p. stopped_before_drain p
           (snd (snd (media_stream repr cfg STREAMS_SETTINGS session_id world)))"
    and "\<forall>p. stopped_before_drain p
           (snd (snd (media_stream repr cfg STREAMS_SETTINGS session_id world))) \<or>
         cancelled_before_drain p
           (snd (snd (media_stream repr cfg STREAMS_SETTINGS session_id world)))"
proof -
  obtain s acts where run: "run_pumps repr initial_session (schedule world) = (s, acts)"
    by (cases "run_pumps repr initial_session (schedule world)")
  then have s: "streamed repr world = s" by (simp add: streamed_def)
  let ?trace = "snd (snd (media_stream repr cfg STREAMS_SETTINGS session_id world))"
  let ?pre = "[WsAccept, ModelConnect, ModelSend (session_update settings),
      ModelSend greeting_item, ModelSend response_create, TaskCreated T1, TaskCreated T2] @
      acts @ cancel_pending s"
  let ?post = "post_call cfg world settings (transcript s)"
  have trace: "?trace = ?pre @ ?post"
    unfolding media_stream_complete [where STREAMS_SETTINGS = STREAMS_SETTINGS
        and session_id = session_id, OF assms]
    by (simp add: run s)
  from run_pumps_flags [OF run] have
    t1: "t1_done s \<longleftrightarrow> TaskDone T1 \<in> set acts" and
    t2: "t2_done s \<longleftrightarrow> TaskDone T2 \<in> set acts" and
    pa: "\<forall>a \<in> set acts. pump_action a"
    by (simp_all add: initial_session_def)
  from pa pump_action_not_post(1,2,4)
  have acts_quiet: "\<forall>a \<in> set acts. \<not> is_summarize a \<and> \<not> is_notify a \<and> a \<noteq> ModelClose"
    by blast
  then have pre_quiet: "\<forall>a \<in> set ?pre. \<not> is_summarize a \<and> \<not> is_notify a \<and> a \<noteq> ModelClose"
    by (auto simp: cancel_pending_def)
  obtain rest where post: "?post = ModelClose # rest"
    by (simp add: post_call_shape)
  have bd: "before_drain ?trace = ?pre"
  proof -
    have "takeWhile (\<lambda>a. a \<noteq> ModelClose) (?pre @ ModelClose # rest) =
        ?pre @ takeWhile (\<lambda>a. a \<noteq> ModelClose) (ModelClose # rest)"
      using pre_quiet by (intro takeWhile_append2) blast
    then show ?thesis
      unfolding before_drain_def trace post by simp
  qed
  have fa: "filter is_summarize acts = []" "filter is_notify acts = []"
    using acts_quiet by (simp_all add: filter_empty_conv)
  have fc: "filter is_summarize (cancel_pending s) = []"
    "filter is_notify (cancel_pending s) = []"
    by (simp_all add: cancel_pending_def)
  show "length (filter is_summarize ?trace) = 1"
    by (simp add: trace fa fc post_call_counts(1))
  show "length (filter is_notify ?trace) = 1"
    by (simp add: trace fa fc post_call_counts(2))
  show "\<forall>a \<in> set (before_drain ?trace). \<not> is_summarize a \<and> \<not> is_notify a"
    unfolding bd using pre_quiet by blast
  from assms(3) s t1 t2 have "TaskDone T1 \<in> set acts \<or> TaskDone T2 \<in> set acts"
    by (simp add: a_pump_done_def)
  then show "\<exists>p. stopped_before_drain p ?trace"
    unfolding stopped_before_drain_def bd by auto
  show "\<forall>p. stopped_before_drain p ?trace \<or> cancelled_before_drain p ?trace"
  proof
    fix p
    show "stopped_before_drain p ?trace \<or> cancelled_before_drain p ?trace"
      unfolding stopped_before_drain_def cancelled_before_drain_def bd
      using t1 t2 by (cases p) (auto simp: cancel_pending_def)
  qed
qed

section \<open>The example call, run\<close>

lemma completion_examples:
  "completion (user_said text) = Some (User, JStr text)"
  "completion (assistant_said text) = Some (Assistant, JStr text)"
  by (simp_all add: completion_def user_said_def assistant_said_def)

lemma run_pumps_hello:
  "run_pumps repr initial_session
     [ToModelPump (Text (Some (user_said ''Hello'')) None),
      ToModelPump (Text (Some (assistant_said ''Hi there'')) None)] =
   (initial_session\<lparr>transcript := [''user: Hello'', ''assistant: Hi there'']\<rparr>, [])"
  by (simp add: pump_step_def initial_session_def
      openai_to_twilio_completion [OF completion_examples(1)]
      openai_to_twilio_completion [OF completion_examples(2)] render_def format_value_def)

lemma delta_chunk_example: "delta_chunk (delta_frame ''AAEC'') = Some [0, 1, 2]"
  by (simp add: delta_chunk_def delta_frame_def table_a2b_base64_def)

lemma media_payload_example: "media_payload (media_frame payload) = Some (JStr payload)"
  by (simp add: media_payload_def media_frame_def)

lemma run_pumps_audio_example:
  "run_pumps repr initial_session
     [ToModelPump (Text (Some (delta_frame ''AAEC'')) None),
      ToTwilioPump (Text (Some (media_frame ''AAAA'')) None),
      ToModelPump (Text (Some (delta_frame ''AAEC'')) None)] =
   (initial_session,
    [WsSendJson (media_out JNull (b64encode [0, 1, 2])),
     ModelSend (audio_append (JStr ''AAAA'')),
     WsSendJson (media_out JNull (b64encode [0, 1, 2]))])"
  by (simp add: pump_step_def initial_session_def
      twilio_to_openai_media [OF media_payload_example]
      openai_to_twilio_delta [OF delta_chunk_example])

lemma run_pumps_scenario:
  "run_pumps repr initial_session
     [ToTwilioPump (Text (Some start_frame) None),
      ToTwilioPump (Text (Some (media_frame ''AAAA'')) None),
      ToTwilioPump (Text (Some (media_frame ''AAEC'')) None),
      ToTwilioPump Disconnect] =
   (initial_session\<lparr>stream_sid := JStr ''MZ1'', t1_done := True\<rparr>,
    [ModelSend (audio_append (JStr ''AAAA'')), ModelSend (audio_append (JStr ''AAEC'')),
     TaskDone T1])"
proof -
  have start: "twilio_to_openai s (Text (Some start_frame) None) =
      (s\<lparr>stream_sid := JStr ''MZ1''\<rparr>, [])" for s
    by (simp add: twilio_to_openai_def start_frame_def)
  have stop: "twilio_to_openai s Disconnect = (s\<lparr>t1_done := True\<rparr>, [TaskDone T1])" for s
    by (simp add: twilio_to_openai_def t1_stop_def)
  show ?thesis
    by (simp add: pump_step_def initial_session_def start stop
        twilio_to_openai_media [OF media_payload_example])
qed

lemma strip_example: "strip ''user: Hello'' = ''user: Hello''"
  by (simp add: strip_def rstrip_def lstrip.simps rstrip_rev.simps)

lemma run_pumps_one_line:
  "run_pumps repr initial_session
     [ToModelPump (Text (Some (user_said ''Hello'')) None), ToTwilioPump Disconnect] =
   (initial_session\<lparr>transcript := [''user: Hello''], t1_done := True\<rparr>, [TaskDone T1])"
  by (simp add: pump_step_def initial_session_def twilio_to_openai_def t1_stop_def
      openai_to_twilio_completion [OF completion_examples(1)] render_def format_value_def)

lemma run_pumps_hello_end:
  "run_pumps repr initial_session
     [ToModelPump (Text (Some (user_said ''Hello'')) None),
      ToModelPump (Text (Some (assistant_said ''Hi there'')) None),
      ToTwilioPump Disconnect] =
   (initial_session\<lparr>transcript := [''user: Hello'', ''assistant: Hi there''],
      t1_done := True\<rparr>, [TaskDone T1])"
  by (simp add: pump_step_def initial_session_def twilio_to_openai_def t1_stop_def
      openai_to_twilio_completion [OF completion_examples(1)]
      openai_to_twilio_completion [OF completion_examples(2)] render_def format_value_def)

section \<open>The claims\<close>

text \<open>
  C1, as the specification has it: summary and notification come only after both pumps
  have stopped, because the relay awaits the stop of the pump that it cancels. The code
  calls \<^verbatim>\<open>cancel\<close> on the pending task and goes on without awaiting it. In the call below
  the telephony socket closes first: the model pump is asked to stop, it has not returned
  when the relay closes the model socket, and the relay summarises and notifies.
\<close>

theorem C1_both_pumps_stopped_counterexample:
  "snd (snd (media_stream example_repr example_config example_registry ''abc123''
     (example_world [ToTwilioPump Disconnect]))) =
   [WsAccept, ModelConnect, ModelSend (session_update example_settings),
    ModelSend greeting_item, ModelSend response_create, TaskCreated T1, TaskCreated T2,
    TaskDone T1, TaskCancel T2, ModelClose, Summarize [],
    Notify ''a@example.com'' ''No conversation content to summarize.'',
    MailSend \<lparr>from_email = ''agent@example.com'', to_emails = ''a@example.com'',
              template_id = ''d-1'',
              dynamic_template_data = ''No conversation content to summarize.''\<rparr>] \<and>
   \<not> stopped_before_drain T2
     (snd (snd (media_stream example_repr example_config example_registry ''abc123''
        (example_world [ToTwilioPump Disconnect]))))"
proof -
  have run: "run_pumps example_repr initial_session [ToTwilioPump Disconnect] =
      (initial_session\<lparr>t1_done := True\<rparr>, [TaskDone T1])"
    by (simp add: pump_step_def initial_session_def twilio_to_openai_def t1_stop_def)
  have sched: "schedule (example_world [ToTwilioPump Disconnect]) = [ToTwilioPump Disconnect]"
    and llm: "chat_completions_create (example_world [ToTwilioPump Disconnect]) = llm_answers"
    and sg: "sg_send (example_world [ToTwilioPump Disconnect]) = mail_accepted"
    by (simp_all add: example_world_def)
  have st: "streamed example_repr (example_world [ToTwilioPump Disconnect]) =
      initial_session\<lparr>t1_done := True\<rparr>"
    unfolding streamed_def sched by (simp only: run) simp
  have pd: "a_pump_done example_repr (example_world [ToTwilioPump Disconnect])"
    unfolding a_pump_done_def st by simp
  have post: "post_call example_config (example_world [ToTwilioPump Disconnect])
      example_settings [] =
      [ModelClose, Summarize [],
       Notify ''a@example.com'' ''No conversation content to summarize.'',
       MailSend \<lparr>from_email = ''agent@example.com'', to_emails = ''a@example.com'',
              template_id = ''d-1'',
              dynamic_template_data = ''No conversation content to summarize.''\<rparr>]"
    unfolding post_call_shape llm sg
    by (simp add: summarize_conversation_blank [OF strip_Nil] send_summary_email_def
        example_config_def example_settings_def mail_accepted_def)
  have trace: "snd (snd (media_stream example_repr example_config example_registry ''abc123''
     (example_world [ToTwilioPump Disconnect]))) =
   [WsAccept, ModelConnect, ModelSend (session_update example_settings),
    ModelSend greeting_item, ModelSend response_create, TaskCreated T1, TaskCreated T2,
    TaskDone T1, TaskCancel T2, ModelClose, Summarize [],
    Notify ''a@example.com'' ''No conversation content to summarize.'',
    MailSend \<lparr>from_email = ''agent@example.com'', to_emails = ''a@example.com'',
              template_id = ''d-1'',
              dynamic_template_data = ''No conversation content to summarize.''\<rparr>]"
    unfolding media_stream_complete [where STREAMS_SETTINGS = example_registry
        and session_id = "''abc123''", OF example_registry_lookup example_world_streams pd]
      st sched
    by (simp only: run) (simp add: cancel_pending_def initial_session_def post)
  show ?thesis
    unfolding trace by (simp add: stopped_before_drain_def before_drain_def)
qed

text \<open>
  C1, amended: in every run the relay summarises at most once and notifies at most once,
  and never before the drain. When it does, at least one pump has stopped before the
  drain, and on each pump that has not the relay has called \<^verbatim>\<open>cancel\<close>: the stop of that
  pump is requested before the drain, not awaited.
\<close>

theorem C1_summary_once_after_first_pump:
  "length (filter is_summarize
     (snd (snd (media_stream repr cfg STREAMS_SETTINGS session_id world)))) \<le> 1 \<and>
   length (filter is_notify
     (snd (snd (media_stream repr cfg STREAMS_SETTINGS session_id world)))) \<le> 1 \<and>
   (\<forall>a \<in> set (before_drain
       (snd (snd (media_stream repr cfg STREAMS_SETTINGS session_id world)))).
      \<not> is_summarize a \<and> \<not> is_notify a) \<and>
   (list_ex is_summarize (snd (snd (media_stream repr cfg STREAMS_SETTINGS session_id world))) \<or>
    list_ex is_notify (snd (snd (media_stream repr cfg STREAMS_SETTINGS session_id world))) \<longrightarrow>
      (\<exists>p. stopped_before_drain p
         (snd (snd (media_stream repr cfg STREAMS_SETTINGS session_id world)))) \<and>
      (\<forall>p. stopped_before_drain p
         (snd (snd (media_stream repr cfg STREAMS_SETTINGS session_id world))) \<or>
       cancelled_before_drain p
         (snd (snd (media_stream repr cfg STREAMS_SETTINGS session_id world)))))"
proof (cases "\<exists>settings. STREAMS_SETTINGS session_id = Some settings \<and> streams world \<and>
    a_pump_done repr world")
  case True
  then obtain settings where c: "STREAMS_SETTINGS session_id = Some settings" "streams world"
    "a_pump_done repr world" by blast
  from media_stream_complete_summary [where STREAMS_SETTINGS = STREAMS_SETTINGS
      and session_id = session_id and repr = repr and cfg = cfg, OF c]
  show ?thesis by simp
next
  case False
  let ?trace = "snd (snd (media_stream repr cfg STREAMS_SETTINGS session_id world))"
  have quiet: "\<forall>a \<in> set ?trace. \<not> is_summarize a \<and> \<not> is_notify a"
  proof (cases "STREAMS_SETTINGS session_id = None \<or> \<not> streams world")
    case True
    then show ?thesis by (rule media_stream_early)
  next
    case False
    then obtain settings where c: "STREAMS_SETTINGS session_id = Some settings" "streams world"
      by auto
    with \<open>\<not> (\<exists>settings. STREAMS_SETTINGS session_id = Some settings \<and> streams world \<and>
      a_pump_done repr world)\<close> have "\<not> a_pump_done repr world" by simp
    with c show ?thesis
      using media_stream_waiting [where STREAMS_SETTINGS = STREAMS_SETTINGS
          and session_id = session_id and repr = repr and cfg = cfg and world = world
          and settings = settings]
      by simp
  qed
  then have "filter is_summarize ?trace = []" and "filter is_notify ?trace = []"
    by (simp_all only: filter_empty_conv) blast+
  moreover from quiet have "\<not> list_ex is_summarize ?trace" and "\<not> list_ex is_notify ?trace"
    by (simp_all add: list_ex_iff)
  moreover from quiet have
    "\<forall>a \<in> set (before_drain ?trace). \<not> is_summarize a \<and> \<not> is_notify a"
    unfolding before_drain_def by (blast dest: set_takeWhileD)
  ultimately show ?thesis by simp
qed

theorem C1_summary_once_after_first_pump_witness:
  "list_ex is_summarize
     (snd (snd (media_stream example_repr example_config example_registry ''abc123''
        (example_world [ToTwilioPump Disconnect])))) \<and>
   stopped_before_drain T1
     (snd (snd (media_stream example_repr example_config example_registry ''abc123''
        (example_world [ToTwilioPump Disconnect])))) \<and>
   cancelled_before_drain T2
     (snd (snd (media_stream example_repr example_config example_registry ''abc123''
        (example_world [ToTwilioPump Disconnect])))) \<and>
   length (filter is_summarize
     (snd (snd (media_stream example_repr example_config example_registry ''abc123''
        (example_world [ToTwilioPump Disconnect]))))) \<le> 1"
proof -
  have run: "run_pumps example_repr initial_session [ToTwilioPump Disconnect] =
      (initial_session\<lparr>t1_done := True\<rparr>, [TaskDone T1])"
    by (simp add: pump_step_def initial_session_def twilio_to_openai_def t1_stop_def)
  have sched: "schedule (example_world [ToTwilioPump Disconnect]) = [ToTwilioPump Disconnect]"
    by (simp add: example_world_def)
  have st: "streamed example_repr (example_world [ToTwilioPump Disconnect]) =
      initial_session\<lparr>t1_done := True\<rparr>"
    unfolding streamed_def sched by (simp only: run) simp
  have pd: "a_pump_done example_repr (example_world [ToTwilioPump Disconnect])"
    unfolding a_pump_done_def st by simp
  let ?trace = "snd (snd (media_stream example_repr example_config example_registry ''abc123''
        (example_world [ToTwilioPump Disconnect])))"
  obtain rest where trace: "?trace =
      [WsAccept, ModelConnect, ModelSend (session_update example_settings),
       ModelSend greeting_item, ModelSend response_create, TaskCreated T1, TaskCreated T2,
       TaskDone T1, TaskCancel T2, ModelClose, Summarize []] @ rest"
    unfolding media_stream_complete [where STREAMS_SETTINGS = example_registry
        and session_id = "''abc123''", OF example_registry_lookup example_world_streams pd]
      st sched
    by (simp only: run) (simp add: cancel_pending_def initial_session_def post_call_shape)
  have facts: "list_ex is_summarize ?trace" "stopped_before_drain T1 ?trace"
    "cancelled_before_drain T2 ?trace"
    unfolding trace
    by (simp_all add: stopped_before_drain_def cancelled_before_drain_def before_drain_def)
  with C1_summary_once_after_first_pump [of example_repr example_config example_registry
      "''abc123''" "example_world [ToTwilioPump Disconnect]"]
  show ?thesis by simp
qed

text \<open>
  C2. A connection for a session id that no call request has registered is refused: the
  relay's only action is to close the inbound socket. It opens no model socket and does no
  transcript, summary or notification work, and it leaves the registry as it was.
\<close>

theorem C2_unregistered_session_refused:
  assumes "session_id \<notin> set (map fst calls)"
  shows "fst (media_stream repr cfg (registered calls Map.empty) session_id world) =
           registered calls Map.empty \<and>
         snd (snd (media_stream repr cfg (registered calls Map.empty) session_id world)) =
           [WsClose]"
proof -
  have "registered calls Map.empty session_id = None"
    using registered_other [OF assms, of Map.empty] by simp
  then show ?thesis
    by (simp add: media_stream_registry media_stream_refused)
qed

theorem C2_unregistered_session_refused_witness:
  "''nobody'' \<notin> set (map fst [(''abc123'', example_request)]) \<and>
   snd (snd (media_stream example_repr example_config example_registry ''nobody''
     (example_world [ToTwilioPump Disconnect]))) = [WsClose]"
  using C2_unregistered_session_refused [of "''nobody''" "[(''abc123'', example_request)]"
      example_repr example_config "example_world [ToTwilioPump Disconnect]"]
  by (simp add: example_registry_def)

text \<open>
  C3. Within each direction the frames go out in the order in which they came in,
  whatever the interleaving of the two directions: the audio that the relay sends on to the
  model is that of the first inbound \<^verbatim>\<open>media\<close> events, in order and as it came,
  and the payloads that it sends to the telephony socket are those of the first audio
  deltas, in order, each decoded and encoded again; while a pump is still running, all of
  its events are covered. Decoding what was encoded gives the bytes back, so the audio of
  a forwarded payload is the audio of its delta.
\<close>

theorem C3_forwarded_in_order_and_lossless:
  "(\<exists>k. model_audio (snd (run_pumps repr s evs)) = take k (inbound_payloads evs)) \<and>
   (\<not> t1_done (fst (run_pumps repr s evs)) \<longrightarrow>
      model_audio (snd (run_pumps repr s evs)) = inbound_payloads evs) \<and>
   (\<exists>k. outbound_payloads (snd (run_pumps repr s evs)) =
          map (\<lambda>chunk. JStr (b64encode chunk)) (take k (delta_chunks evs))) \<and>
   (\<not> t2_done (fst (run_pumps repr s evs)) \<longrightarrow>
      outbound_payloads (snd (run_pumps repr s evs)) =
        map (\<lambda>chunk. JStr (b64encode chunk)) (delta_chunks evs)) \<and>
   (delta_chunk evt = Some chunk \<longrightarrow>
      (\<exists>delta. py_getitem evt ''delta'' = Inr delta \<and>
         b64decode (JStr (b64encode chunk)) = b64decode delta)) \<and>
   b64decode (JStr (b64encode bytes)) = Inr bytes"
proof -
  obtain s' acts where run: "run_pumps repr s evs = (s', acts)"
    by (cases "run_pumps repr s evs")
  have "\<exists>delta. py_getitem evt ''delta'' = Inr delta \<and>
         b64decode (JStr (b64encode chunk)) = b64decode delta"
    if "delta_chunk evt = Some chunk"
    using delta_chunk_SomeD(2) [OF that]
    by (auto simp: b64decode_b64encode simp del: b64decode.simps)
  with run_pumps_model_audio [OF run] run_pumps_outbound_payloads [OF run] run
  show ?thesis
    by (simp add: b64decode_b64encode del: b64decode.simps)
qed

theorem C3_forwarded_in_order_and_lossless_witness:
  "model_audio (snd (run_pumps example_repr initial_session
     [ToModelPump (Text (Some (delta_frame ''AAEC'')) None),
      ToTwilioPump (Text (Some (media_frame ''AAAA'')) None),
      ToModelPump (Text (Some (delta_frame ''AAEC'')) None)])) = [JStr ''AAAA''] \<and>
   outbound_payloads (snd (run_pumps example_repr initial_session
     [ToModelPump (Text (Some (delta_frame ''AAEC'')) None),
      ToTwilioPump (Text (Some (media_frame ''AAAA'')) None),
      ToModelPump (Text (Some (delta_frame ''AAEC'')) None)])) =
     [JStr (b64encode [0, 1, 2]), JStr (b64encode [0, 1, 2])] \<and>
   b64decode (JStr (b64encode [0, 1, 2])) = b64decode (JStr ''AAEC'')"
proof -
  have running: "\<not> t1_done (fst (run_pumps example_repr initial_session
     [ToModelPump (Text (Some (delta_frame ''AAEC'')) None),
      ToTwilioPump (Text (Some (media_frame ''AAAA'')) None),
      ToModelPump (Text (Some (delta_frame ''AAEC'')) None)]))"
    "\<not> t2_done (fst (run_pumps example_repr initial_session
     [ToModelPump (Text (Some (delta_frame ''AAEC'')) None),
      ToTwilioPump (Text (Some (media_frame ''AAAA'')) None),
      ToModelPump (Text (Some (delta_frame ''AAEC'')) None)]))"
    by (simp_all only: run_pumps_audio_example) (simp_all add: initial_session_def)
  have delta: "py_getitem (delta_frame ''AAEC'') ''delta'' = Inr (JStr ''AAEC'')"
    by (simp add: delta_frame_def)
  have decoded: "b64decode (JStr ''AAEC'') = Inr [0, 1, 2]"
    by (simp add: table_a2b_base64_def)
  from running delta C3_forwarded_in_order_and_lossless [of example_repr initial_session
      "[ToModelPump (Text (Some (delta_frame ''AAEC'')) None),
        ToTwilioPump (Text (Some (media_frame ''AAAA'')) None),
        ToModelPump (Text (Some (delta_frame ''AAEC'')) None)]"
      "delta_frame ''AAEC''" "[0, 1, 2]"]
  show ?thesis
    by (simp add: media_payload_example delta_chunk_example decoded
        del: run_pumps.simps b64decode.simps)
qed

text \<open>
  C4, as the specification has it: the entry of a session is consumed when the relay
  attaches, so that a second connection for the same id finds none. The code does not do
  that: after the first connection for \<^verbatim>\<open>abc123\<close> the entry is still there, and a second
  connection is accepted and gets a model socket.
\<close>

theorem C4_entry_consumed_counterexample:
  "fst (media_stream example_repr example_config example_registry ''abc123''
          (example_world [ToTwilioPump Disconnect])) ''abc123'' = Some example_settings \<and>
   take 2 (snd (snd (media_stream example_repr example_config
          (fst (media_stream example_repr example_config example_registry ''abc123''
                  (example_world [ToTwilioPump Disconnect])))
          ''abc123'' (example_world [ToTwilioPump Disconnect])))) = [WsAccept, ModelConnect]"
proof -
  have "take 2 (snd (snd (media_stream example_repr example_config example_registry ''abc123''
          (example_world [ToTwilioPump Disconnect])))) = [WsAccept, ModelConnect]"
    using media_stream_streams [where STREAMS_SETTINGS = example_registry
        and session_id = "''abc123''" and settings = example_settings
        and world = "example_world [ToTwilioPump Disconnect]"
        and repr = example_repr and cfg = example_config]
    by (simp add: example_registry_lookup example_world_streams split: if_splits)
  then show ?thesis
    by (simp add: media_stream_registry example_registry_lookup)
qed

text \<open>
  C4, amended: a call request stores the entry of its session, and the relay only reads
  it. A connection leaves the registry as it was, so a later connection for the same id
  finds the same entry and is served as the first one would have been.
\<close>

theorem C4_entry_read_not_consumed:
  "fst (call_custom session_id req STREAMS_SETTINGS) session_id =
     Some \<lparr>system_message = req_system_message req, voice = req_voice req,
           email = req_email req\<rparr> \<and>
   fst (media_stream repr cfg STREAMS_SETTINGS session_id world) = STREAMS_SETTINGS \<and>
   snd (media_stream repr cfg
          (fst (media_stream repr cfg STREAMS_SETTINGS session_id world)) session_id later) =
     snd (media_stream repr cfg STREAMS_SETTINGS session_id later)"
  by (simp add: media_stream_registry call_custom_def)

theorem C4_entry_read_not_consumed_witness:
  "fst (media_stream example_repr example_config example_registry ''abc123''
          (example_world [ToTwilioPump Disconnect])) = example_registry"
  using C4_entry_read_not_consumed [of "''abc123''" example_request example_registry
      example_repr example_config "example_world [ToTwilioPump Disconnect]"
      "example_world [ToTwilioPump Disconnect]"]
  by simp

text \<open>
  C5, as the specification has it: the notification fails with an error when its
  configuration is absent and when delivery fails. The code does neither: without
  configuration it returns at once and sends nothing, and when the mail service raises it
  returns as well.
\<close>

theorem C5_notification_error_counterexample:
  "send_summary_email no_config mail_accepted ''a@example.com'' ''A short call.'' =
     (Inr (), []) \<and>
   send_summary_email example_config mail_fails ''a@example.com'' ''A short call.'' =
     (Inr (),
      [MailSend \<lparr>from_email = ''agent@example.com'', to_emails = ''a@example.com'',
                 template_id = ''d-1'', dynamic_template_data = ''A short call.''\<rparr>])"
  by (simp add: send_summary_email_def no_config_def example_config_def mail_fails_def)

text \<open>
  C5, amended: the notification never raises. Without its required configuration (API
  credential, sender address, template identifier) it returns without a delivery attempt.
  With it, it makes one delivery attempt, of the summary to the given address, and
  returns whether the delivery succeeds or fails.
\<close>

theorem C5_notification_always_returns:
  "fst (send_summary_email cfg send to_email summary) = Inr () \<and>
   (\<not> configured cfg \<longrightarrow> snd (send_summary_email cfg send to_email summary) = []) \<and>
   (configured cfg \<longrightarrow>
      (\<exists>sender template.
         EMAIL_FROM cfg = Some sender \<and> SUMMARY_TEMPLATE_ID cfg = Some template \<and>
         snd (send_summary_email cfg send to_email summary) =
           [MailSend \<lparr>from_email = sender, to_emails = to_email, template_id = template,
                      dynamic_template_data = summary\<rparr>]))"
  by (auto simp: send_summary_email_def configured_def Let_def
      split: option.splits sum.splits)

theorem C5_notification_always_returns_witness:
  "\<not> configured no_config \<and> configured example_config \<and>
   fst (send_summary_email no_config mail_fails ''a@example.com'' ''A short call.'') = Inr () \<and>
   snd (send_summary_email no_config mail_fails ''a@example.com'' ''A short call.'') = [] \<and>
   fst (send_summary_email example_config mail_fails ''a@example.com'' ''A short call.'') =
     Inr ()"
  using C5_notification_always_returns [of no_config mail_fails "''a@example.com''"
      "''A short call.''"]
    C5_notification_always_returns [of example_config mail_fails "''a@example.com''"
      "''A short call.''"]
  by (simp add: configured_def no_config_def example_config_def)



text \<open>
  C7. The transcript grows by one line for each completion event that the model pump
  handles, in the order of the events: \<^verbatim>\<open>user: <text>\<close> for a completed input
  transcription, \<^verbatim>\<open>assistant: <text>\<close> for a finished response transcript. Whatever the
  schedule, the lines added are those of the first completion events, in order, and of all
  of them when the model pump is still running at the end. The relay summarises the lines
  joined by newlines; for the two events user \<^verbatim>\<open>Hello\<close>, assistant \<^verbatim>\<open>Hi there\<close> that is
  \<^verbatim>\<open>user: Hello\nassistant: Hi there\<close>.
\<close>

theorem C7_transcript_in_arrival_order:
  "(\<exists>k. transcript (fst (run_pumps repr s evs)) =
          transcript s @ map (render repr) (take k (completions evs))) \<and>
   (\<not> t2_done (fst (run_pumps repr s evs)) \<longrightarrow>
      transcript (fst (run_pumps repr s evs)) =
        transcript s @ map (render repr) (completions evs)) \<and>
   render repr (User, JStr text) = ''user: '' @ text \<and>
   render repr (Assistant, JStr text) = ''assistant: '' @ text \<and>
   (STREAMS_SETTINGS session_id = Some settings \<and> streams world \<and> a_pump_done repr world \<longrightarrow>
      Summarize (join [CHR 0x0A] (transcript (streamed repr world))) \<in>
        set (snd (snd (media_stream repr cfg STREAMS_SETTINGS session_id world)))) \<and>
   join [CHR 0x0A] (transcript (fst (run_pumps repr initial_session
     [ToModelPump (Text (Some (user_said ''Hello'')) None),
      ToModelPump (Text (Some (assistant_said ''Hi there'')) None)]))) =
     ''user: Hello'' @ [CHR 0x0A] @ ''assistant: Hi there''"
proof -
  obtain s' acts where run: "run_pumps repr s evs = (s', acts)"
    by (cases "run_pumps repr s evs")
  have relay: "Summarize (join [CHR 0x0A] (transcript (streamed repr world))) \<in>
        set (snd (snd (media_stream repr cfg STREAMS_SETTINGS session_id world)))"
    if "STREAMS_SETTINGS session_id = Some settings" "streams world" "a_pump_done repr world"
    unfolding media_stream_complete [where STREAMS_SETTINGS = STREAMS_SETTINGS
        and session_id = session_id, OF that]
    by (simp add: post_call_shape)
  have hello: "join [CHR 0x0A] (transcript (fst (run_pumps repr initial_session
     [ToModelPump (Text (Some (user_said ''Hello'')) None),
      ToModelPump (Text (Some (assistant_said ''Hi there'')) None)]))) =
     ''user: Hello'' @ [CHR 0x0A] @ ''assistant: Hi there''"
    by (simp only: run_pumps_hello) simp
  from run_pumps_transcript [OF run] run relay hello show ?thesis
    by (simp add: render_def format_value_def del: run_pumps.simps)
qed

theorem C7_transcript_in_arrival_order_witness:
  "transcript (fst (run_pumps example_repr initial_session
     [ToModelPump (Text (Some (user_said ''Hello'')) None),
      ToModelPump (Text (Some (assistant_said ''Hi there'')) None)])) =
   [''user: Hello'', ''assistant: Hi there''] \<and>
   Summarize (''user: Hello'' @ [CHR 0x0A] @ ''assistant: Hi there'') \<in>
     set (snd (snd (media_stream example_repr example_config example_registry ''abc123''
       (example_world
          [ToModelPump (Text (Some (user_said ''Hello'')) None),
           ToModelPump (Text (Some (assistant_said ''Hi there'')) None),
           ToTwilioPump Disconnect]))))"
proof -
  let ?evs = "[ToModelPump (Text (Some (user_said ''Hello'')) None),
      ToModelPump (Text (Some (assistant_said ''Hi there'')) None)]"
  let ?world = "example_world (?evs @ [ToTwilioPump Disconnect])"
  have run: "\<not> t2_done (fst (run_pumps example_repr initial_session ?evs))"
    by (simp only: run_pumps_hello) (simp add: initial_session_def)
  have "completions ?evs = [(User, JStr ''Hello''), (Assistant, JStr ''Hi there'')]"
    by (simp add: completion_examples)
  with run C7_transcript_in_arrival_order [of example_repr initial_session ?evs]
  have first: "transcript (fst (run_pumps example_repr initial_session ?evs)) =
      [''user: Hello'', ''assistant: Hi there'']"
    by (simp add: initial_session_def render_def format_value_def del: run_pumps.simps)
  have sched: "schedule ?world = ?evs @ [ToTwilioPump Disconnect]"
    by (simp add: example_world_def)
  have st: "streamed example_repr ?world =
      initial_session\<lparr>transcript := [''user: Hello'', ''assistant: Hi there''],
        t1_done := True\<rparr>"
    unfolding streamed_def sched
    by (simp only: run_pumps_hello_end append.simps) simp
  have pd: "a_pump_done example_repr ?world"
    unfolding a_pump_done_def st by simp
  from C7_transcript_in_arrival_order [where STREAMS_SETTINGS = example_registry
      and session_id = "''abc123''" and settings = example_settings and world = ?world
      and repr = example_repr and cfg = example_config]
    example_registry_lookup example_world_streams [of "?evs @ [ToTwilioPump Disconnect]"] pd
  have "Summarize (join [CHR 0x0A] (transcript (streamed example_repr ?world))) \<in>
      set (snd (snd (media_stream example_repr example_config example_registry ''abc123''
        ?world)))"
    by (simp del: run_pumps.simps)
  with first show ?thesis
    unfolding st by simp
qed

text \<open>
  C8. When the relay reaches its summary with no completion event in the schedule, the
  transcript text is empty: the summary is the fixed text
  \<^verbatim>\<open>No conversation content to summarize.\<close>, no request goes to the language model, and
  the notification is called with that text for the address of the session.
\<close>

theorem C8_empty_transcript_gets_placeholder:
  assumes "STREAMS_SETTINGS session_id = Some settings" and "streams world"
    and "a_pump_done repr world" and "completions (schedule world) = []"
  shows "snd (snd (media_stream repr cfg STREAMS_SETTINGS session_id world)) =
     [WsAccept, ModelConnect, ModelSend (session_update settings), ModelSend greeting_item,
      ModelSend response_create, TaskCreated T1, TaskCreated T2] @
     snd (run_pumps repr initial_session (schedule world)) @
     cancel_pending (streamed repr world) @
     [ModelClose, Summarize [],
      Notify (email settings) ''No conversation content to summarize.''] @
     snd (send_summary_email cfg (sg_send world) (email settings)
            ''No conversation content to summarize.'') \<and>
   (\<forall>a \<in> set (snd (snd (media_stream repr cfg STREAMS_SETTINGS session_id world))).
      \<not> is_llm_request a) \<and>
   summarize_conversation (chat_completions_create world) [] =
     (Inr ''No conversation content to summarize.'', [])"
proof -
  obtain s acts where run: "run_pumps repr initial_session (schedule world) = (s, acts)"
    by (cases "run_pumps repr initial_session (schedule world)")
  from run_pumps_transcript [OF run] assms(4) have "transcript s = []"
    by (auto simp: initial_session_def)
  with run have empty: "transcript (streamed repr world) = []"
    by (simp add: streamed_def)
  have blank: "summarize_conversation (chat_completions_create world) [] =
     (Inr ''No conversation content to summarize.'', [])"
    by (rule summarize_conversation_blank) (rule strip_Nil)
  have pumps: "\<forall>a \<in> set acts. \<not> is_llm_request a"
    using run_pumps_flags [OF run] pump_action_not_post(3) by blast
  have mail: "\<forall>a \<in> set (snd (send_summary_email cfg (sg_send world) (email settings)
            ''No conversation content to summarize.'')). \<not> is_llm_request a"
    using send_summary_email_acts [of cfg "sg_send world" "email settings"
        "''No conversation content to summarize.''"] by auto
  have trace: "snd (snd (media_stream repr cfg STREAMS_SETTINGS session_id world)) =
     [WsAccept, ModelConnect, ModelSend (session_update settings), ModelSend greeting_item,
      ModelSend response_create, TaskCreated T1, TaskCreated T2] @
     acts @ cancel_pending (streamed repr world) @
     [ModelClose, Summarize [],
      Notify (email settings) ''No conversation content to summarize.''] @
     snd (send_summary_email cfg (sg_send world) (email settings)
            ''No conversation content to summarize.'')"
    unfolding media_stream_complete [where STREAMS_SETTINGS = STREAMS_SETTINGS
        and session_id = session_id, OF assms(1-3)]
    by (simp add: post_call_shape empty blank run)
  have "\<forall>a \<in> set (snd (snd (media_stream repr cfg STREAMS_SETTINGS session_id world))).
      \<not> is_llm_request a"
    unfolding trace using pumps mail by (auto simp: cancel_pending_def)
  with trace blank run show ?thesis by simp
qed

theorem C8_empty_transcript_gets_placeholder_witness:
  "example_registry ''abc123'' = Some example_settings \<and>
   a_pump_done example_repr (example_world
     [ToTwilioPump (Text (Some start_frame) None),
      ToTwilioPump (Text (Some (media_frame ''AAAA'')) None),
      ToTwilioPump (Text (Some (media_frame ''AAEC'')) None),
      ToTwilioPump Disconnect]) \<and>
   Notify ''a@example.com'' ''No conversation content to summarize.'' \<in>
     set (snd (snd (media_stream example_repr example_config example_registry ''abc123''
       (example_world
         [ToTwilioPump (Text (Some start_frame) None),
          ToTwilioPump (Text (Some (media_frame ''AAAA'')) None),
          ToTwilioPump (Text (Some (media_frame ''AAEC'')) None),
          ToTwilioPump Disconnect]))))"
proof -
  let ?evs = "[ToTwilioPump (Text (Some start_frame) None),
      ToTwilioPump (Text (Some (media_frame ''AAAA'')) None),
      ToTwilioPump (Text (Some (media_frame ''AAEC'')) None),
      ToTwilioPump Disconnect]"
  have sched: "schedule (example_world ?evs) = ?evs"
    by (simp add: example_world_def)
  have pd: "a_pump_done example_repr (example_world ?evs)"
    unfolding a_pump_done_def streamed_def sched
    by (simp only: run_pumps_scenario) simp
  have nc: "completions (schedule (example_world ?evs)) = []"
    unfolding sched by simp
  from C8_empty_transcript_gets_placeholder [where STREAMS_SETTINGS = example_registry
      and session_id = "''abc123''" and cfg = example_config,
      OF example_registry_lookup example_world_streams pd nc]
  have "Notify (email example_settings) ''No conversation content to summarize.'' \<in>
     set (snd (snd (media_stream example_repr example_config example_registry ''abc123''
       (example_world ?evs))))"
    by simp
  with pd show ?thesis
    by (simp add: example_registry_lookup example_settings_def)
qed

text \<open>
  C9. When the summarisation raises, whatever the exception, the relay goes on with the
  fixed text \<^verbatim>\<open>Sorry, I couldn't generate a summary.\<close>: it calls the notification with
  that text for the address of the session, and returns. The summarisation raises
  whenever the call of the language model does, on a transcript that is not blank.
\<close>

theorem C9_summarization_failure_replaced:
  assumes "STREAMS_SETTINGS session_id = Some settings" and "streams world"
    and "a_pump_done repr world"
    and "fst (summarize_conversation (chat_completions_create world)
               (join [CHR 0x0A] (transcript (streamed repr world)))) = Inl e"
  shows "fst (snd (media_stream repr cfg STREAMS_SETTINGS session_id world)) = Returned \<and>
   snd (snd (media_stream repr cfg STREAMS_SETTINGS session_id world)) =
     [WsAccept, ModelConnect, ModelSend (session_update settings), ModelSend greeting_item,
      ModelSend response_create, TaskCreated T1, TaskCreated T2] @
     snd (run_pumps repr initial_session (schedule world)) @
     cancel_pending (streamed repr world) @
     [ModelClose, Summarize (join [CHR 0x0A] (transcript (streamed repr world)))] @
     snd (summarize_conversation (chat_completions_create world)
            (join [CHR 0x0A] (transcript (streamed repr world)))) @
     [Notify (email settings) ''Sorry, I couldn't generate a summary.''] @
     snd (send_summary_email cfg (sg_send world) (email settings)
            ''Sorry, I couldn't generate a summary.'') \<and>
   (strip conv \<noteq> [] \<and> (\<forall>request. create request = Inl e') \<longrightarrow>
      fst (summarize_conversation create conv) = Inl e')"
proof -
  have "fst (summarize_conversation create conv) = Inl e'"
    if "strip conv \<noteq> []" "\<forall>request. create request = Inl e'"
    using that by (simp add: summarize_conversation_def Let_def)
  then show ?thesis
    unfolding media_stream_complete [where STREAMS_SETTINGS = STREAMS_SETTINGS
        and session_id = session_id, OF assms(1-3)]
    by (simp add: post_call_shape assms(4))
qed

theorem C9_summarization_failure_replaced_witness:
  "example_registry ''abc123'' = Some example_settings \<and>
   fst (summarize_conversation llm_fails ''user: Hello'') = Inl APIError \<and>
   fst (snd (media_stream example_repr example_config example_registry ''abc123''
     (failing_world
        [ToModelPump (Text (Some (user_said ''Hello'')) None), ToTwilioPump Disconnect]))) =
     Returned \<and>
   Notify ''a@example.com'' ''Sorry, I couldn't generate a summary.'' \<in>
     set (snd (snd (media_stream example_repr example_config example_registry ''abc123''
       (failing_world
          [ToModelPump (Text (Some (user_said ''Hello'')) None), ToTwilioPump Disconnect]))))"
proof -
  let ?evs = "[ToModelPump (Text (Some (user_said ''Hello'')) None), ToTwilioPump Disconnect]"
  have sched: "schedule (failing_world ?evs) = ?evs"
    and llm: "chat_completions_create (failing_world ?evs) = llm_fails"
    by (simp_all add: failing_world_def)
  have st: "streams (failing_world ?evs)"
    by (simp add: streams_def failing_world_def no_fault_def)
  have tr: "streamed example_repr (failing_world ?evs) =
      initial_session\<lparr>transcript := [''user: Hello''], t1_done := True\<rparr>"
    unfolding streamed_def sched by (simp only: run_pumps_one_line) simp
  have pd: "a_pump_done example_repr (failing_world ?evs)"
    unfolding a_pump_done_def tr by simp
  have fails: "fst (summarize_conversation llm_fails ''user: Hello'') = Inl APIError"
    by (simp add: summarize_conversation_def strip_example llm_fails_def)
  then have hyp: "fst (summarize_conversation (chat_completions_create (failing_world ?evs))
               (join [CHR 0x0A] (transcript (streamed example_repr (failing_world ?evs))))) =
               Inl APIError"
    unfolding tr llm by simp
  from C9_summarization_failure_replaced [where STREAMS_SETTINGS = example_registry
      and session_id = "''abc123''" and cfg = example_config,
      OF example_registry_lookup st pd hyp]
  have "fst (snd (media_stream example_repr example_config example_registry ''abc123''
          (failing_world ?evs))) = Returned"
    and "Notify (email example_settings) ''Sorry, I couldn't generate a summary.'' \<in>
     set (snd (snd (media_stream example_repr example_config example_registry ''abc123''
       (failing_world ?evs))))"
    by simp_all
  with fails show ?thesis
    by (simp add: example_registry_lookup example_settings_def)
qed

text \<open>
  C10. The stream id starts as \<^verbatim>\<open>None\<close> and only a telephony \<^verbatim>\<open>start\<close> event sets it.
  So when the model pump, still running, gets an audio delta (not empty, and valid base64)
  after a schedule without any \<^verbatim>\<open>start\<close> event, it still sends a media frame to the
  telephony socket, and the \<^verbatim>\<open>streamSid\<close> of that frame is null.
\<close>

theorem C10_audio_before_start_has_null_stream_id:
  assumes "\<forall>ev \<in> set evs. \<not> start_event ev"
    and "\<not> t2_done (fst (run_pumps repr initial_session evs))"
    and "delta_chunk evt = Some chunk"
  shows "snd (run_pumps repr initial_session (evs @ [ToModelPump (Text (Some evt) None)])) =
         snd (run_pumps repr initial_session evs) @
         [WsSendJson (JObj [(''event'', JStr ''media''), (''streamSid'', JNull),
                            (''media'', JObj [(''payload'', JStr (b64encode chunk))])])]"
proof -
  obtain s1 acts1 where run: "run_pumps repr initial_session evs = (s1, acts1)"
    by (cases "run_pumps repr initial_session evs")
  from run_pumps_stream_sid [OF run assms(1)] have sid: "stream_sid s1 = JNull"
    by (simp add: initial_session_def)
  from assms(2) run have "\<not> t2_done s1" by simp
  then have "run_pumps repr s1 [ToModelPump (Text (Some evt) None)] =
      (s1, [WsSendJson (media_out JNull (b64encode chunk))])"
    by (simp add: pump_step_def openai_to_twilio_delta [OF assms(3)] sid)
  from run_pumps_append [OF run this] run show ?thesis
    by (simp add: media_out_def)
qed

theorem C10_audio_before_start_has_null_stream_id_witness:
  "\<not> start_event (ToTwilioPump (Text (Some (media_frame ''AAAA'')) None)) \<and>
   delta_chunk (delta_frame ''AAEC'') = Some [0, 1, 2] \<and>
   snd (run_pumps example_repr initial_session
     [ToTwilioPump (Text (Some (media_frame ''AAAA'')) None),
      ToModelPump (Text (Some (delta_frame ''AAEC'')) None)]) =
   [ModelSend (audio_append (JStr ''AAAA'')),
    WsSendJson (JObj [(''event'', JStr ''media''), (''streamSid'', JNull),
                      (''media'', JObj [(''payload'', JStr (b64encode [0, 1, 2]))])])]"
proof -
  have mp: "media_payload (media_frame ''AAAA'') = Some (JStr ''AAAA'')"
    by (simp add: media_payload_def media_frame_def)
  have run: "run_pumps example_repr initial_session
      [ToTwilioPump (Text (Some (media_frame ''AAAA'')) None)] =
      (initial_session, [ModelSend (audio_append (JStr ''AAAA''))])"
    by (simp add: pump_step_def initial_session_def twilio_to_openai_media [OF mp])
  have ns: "\<forall>ev \<in> set [ToTwilioPump (Text (Some (media_frame ''AAAA'')) None)]. \<not> start_event ev"
    by (simp add: media_frame_def)
  have nd: "\<not> t2_done (fst (run_pumps example_repr initial_session
      [ToTwilioPump (Text (Some (media_frame ''AAAA'')) None)]))"
    by (simp only: run) (simp add: initial_session_def)
  from C10_audio_before_start_has_null_stream_id [OF ns nd delta_chunk_example] ns
    delta_chunk_example run
  show ?thesis by simp
qed

end
